theory Spec2Isabelle
  imports Main "HOL-Library.Sublist" "HOL-Library.List_Lexorder" "HOL-Library.Char_ord"
    "HOL-Library.Multiset"
begin

section \<open>Python strings\<close>

text \<open>
  A Python \<open>str\<close> is a sequence of code points. The model is \<^typ>\<open>string\<close>, a list of
  \<^typ>\<open>char\<close>, where a \<^typ>\<open>char\<close> stands for the code point of the same number
  (0 to 255, the Latin-1 range); the character classes below are Python's classes on
  that range. Code points above 255 are outside the model.
\<close>

definition is_space :: "char \<Rightarrow> bool" where
  \<comment> \<open>\<open>str.isspace\<close>, the characters \<open>str.strip()\<close> and \<open>str.split()\<close> remove and the
      regular expression \<open>\s\<close> matches\<close>
  "is_space c = (let n = (of_char c :: nat) in
     (9 \<le> n \<and> n \<le> 13) \<or> (28 \<le> n \<and> n \<le> 32) \<or> n = 133 \<or> n = 160)"

definition is_digit :: "char \<Rightarrow> bool" where
  \<comment> \<open>the regular expression \<open>\d\<close>\<close>
  "is_digit c = (let n = (of_char c :: nat) in 48 \<le> n \<and> n \<le> 57)"

definition is_word :: "char \<Rightarrow> bool" where
  \<comment> \<open>the regular expression \<open>\w\<close>: alphanumeric (\<open>str.isalnum\<close>) or underscore\<close>
  "is_word c = (let n = (of_char c :: nat) in
     (48 \<le> n \<and> n \<le> 57) \<or> (65 \<le> n \<and> n \<le> 90) \<or> n = 95 \<or> (97 \<le> n \<and> n \<le> 122)
     \<or> n = 170 \<or> n = 178 \<or> n = 179 \<or> n = 181 \<or> n = 185 \<or> n = 186
     \<or> (188 \<le> n \<and> n \<le> 190) \<or> (192 \<le> n \<and> n \<le> 214) \<or> (216 \<le> n \<and> n \<le> 246)
     \<or> 248 \<le> n)"

definition lower_char :: "char \<Rightarrow> char" where
  "lower_char c = (let n = (of_char c :: nat) in
     if (65 \<le> n \<and> n \<le> 90) \<or> (192 \<le> n \<and> n \<le> 214) \<or> (216 \<le> n \<and> n \<le> 222)
     then char_of (n + 32) else c)"

definition lower :: "string \<Rightarrow> string" where
  \<comment> \<open>\<open>s.lower()\<close>\<close>
  "lower s = map lower_char s"

definition strip :: "string \<Rightarrow> string" where
  \<comment> \<open>\<open>s.strip()\<close>\<close>
  "strip s = rev (dropWhile is_space (rev (dropWhile is_space s)))"

definition rstrip_chars :: "string \<Rightarrow> string \<Rightarrow> string" where
  \<comment> \<open>\<open>s.rstrip(chars)\<close>\<close>
  "rstrip_chars chars s = rev (dropWhile (\<lambda>c. c \<in> set chars) (rev s))"

fun py_in :: "string \<Rightarrow> string \<Rightarrow> bool" where
  \<comment> \<open>\<open>sub in s\<close>\<close>
  "py_in sub [] = (sub = [])"
| "py_in sub (c # cs) = (prefix sub (c # cs) \<or> py_in sub cs)"

function split_aux :: "string \<Rightarrow> string \<Rightarrow> string \<Rightarrow> string list" where
  "split_aux sep acc [] = [rev acc]"
| "split_aux sep acc (c # cs) =
     (if sep \<noteq> [] \<and> prefix sep (c # cs)
      then rev acc # split_aux sep [] (drop (length sep) (c # cs))
      else split_aux sep (c # acc) cs)"
  by pat_completeness auto
termination
  by (relation "measure (\<lambda>(sep, acc, s). length s)") (auto simp: neq_Nil_conv)

definition split :: "string \<Rightarrow> string \<Rightarrow> string list" where
  \<comment> \<open>\<open>s.split(sep)\<close> for a non-empty separator: the parts between the occurrences of
      \<open>sep\<close>, found from the left without overlap\<close>
  "split sep s = split_aux sep [] s"

fun split_ws_aux :: "string \<Rightarrow> string \<Rightarrow> string list" where
  "split_ws_aux acc [] = (if acc = [] then [] else [rev acc])"
| "split_ws_aux acc (c # cs) =
     (if is_space c
      then (if acc = [] then split_ws_aux [] cs else rev acc # split_ws_aux [] cs)
      else split_ws_aux (c # acc) cs)"

definition split_ws :: "string \<Rightarrow> string list" where
  \<comment> \<open>\<open>s.split()\<close>: the maximal runs of characters that are not whitespace\<close>
  "split_ws s = split_ws_aux [] s"

function replace :: "string \<Rightarrow> string \<Rightarrow> string \<Rightarrow> string" where
  \<comment> \<open>\<open>s.replace(old, new)\<close> for a non-empty \<open>old\<close>\<close>
  "replace old new [] = []"
| "replace old new (c # cs) =
     (if old \<noteq> [] \<and> prefix old (c # cs)
      then new @ replace old new (drop (length old) (c # cs))
      else c # replace old new cs)"
  by pat_completeness auto
termination
  by (relation "measure (\<lambda>(old, new, s). length s)") (auto simp: neq_Nil_conv)

fun digit_of :: "char \<Rightarrow> nat" where
  "digit_of c = of_char c - 48"

definition int_of_digits :: "string \<Rightarrow> nat" where
  \<comment> \<open>\<open>int(ds)\<close> for a non-empty string of decimal digits\<close>
  "int_of_digits ds = foldl (\<lambda>n c. 10 * n + digit_of c) 0 ds"

definition digit_char :: "nat \<Rightarrow> char" where
  "digit_char d = char_of (48 + d)"

function str_nat_aux :: "nat \<Rightarrow> string \<Rightarrow> string" where
  "str_nat_aux n acc =
     (if n < 10 then digit_char n # acc else str_nat_aux (n div 10) (digit_char (n mod 10) # acc))"
  by pat_completeness auto
termination
  by (relation "measure (\<lambda>(n, acc). n)") auto

definition str_nat :: "nat \<Rightarrow> string" where
  \<comment> \<open>\<open>str(n)\<close>, as the f-strings format the limits\<close>
  "str_nat n = str_nat_aux n []"

section \<open>The regular expressions of the source\<close>

text \<open>
  The source uses \<open>re.search\<close> and \<open>re.sub\<close> with a handful of patterns, none of which
  matches the empty string. A pattern is modelled by its matcher: given the character
  before the position (\<open>None\<close> at the start of the string) and the text from the
  position on, the matcher returns the text after the match that starts there, if any,
  together with the last character of the match.
  \<open>re.search\<close> takes the leftmost position with a match; \<open>re.sub\<close> replaces the matches
  from the left, continuing after each match.
\<close>

type_synonym matcher = "char option \<Rightarrow> string \<Rightarrow> (char option \<times> string) option"

fun hd_opt :: "string \<Rightarrow> char option" where
  "hd_opt [] = None"
| "hd_opt (c # cs) = Some c"

fun is_word_opt :: "char option \<Rightarrow> bool" where
  "is_word_opt None = False"
| "is_word_opt (Some c) = is_word c"

definition word_boundary :: "char option \<Rightarrow> char option \<Rightarrow> bool" where
  \<comment> \<open>\<open>\b\<close> between two neighbouring characters, the ends of the string counting as
      characters outside \<open>\w\<close>\<close>
  "word_boundary a b = (is_word_opt a \<noteq> is_word_opt b)"

fun match_chars :: "bool \<Rightarrow> string \<Rightarrow> matcher" where
  \<comment> \<open>a literal, character by character; \<open>ci\<close> is the flag \<open>re.I\<close> (the literals of the
      source are in lower case)\<close>
  "match_chars ci [] prev s = Some (prev, s)"
| "match_chars ci (x # xs) prev [] = None"
| "match_chars ci (x # xs) prev (c # cs) =
     (if (if ci then lower_char c else c) = x then match_chars ci xs (Some c) cs else None)"

definition match_lit :: "bool \<Rightarrow> string \<Rightarrow> matcher" where
  \<comment> \<open>a non-empty literal, as in \<open>::text\<close>\<close>
  "match_lit ci lit prev s = (if lit = [] then None else match_chars ci lit prev s)"

definition bounded :: "matcher \<Rightarrow> matcher" where
  \<comment> \<open>\<open>\b...\b\<close>: a pattern between two word boundaries\<close>
  "bounded m prev s =
     (if \<not> word_boundary prev (hd_opt s) then None
      else
        (case m prev s of
           None \<Rightarrow> None
         | Some (l, r) \<Rightarrow> if word_boundary l (hd_opt r) then Some (l, r) else None))"

definition match_word :: "bool \<Rightarrow> string \<Rightarrow> matcher" where
  \<comment> \<open>\<open>\blit\b\<close>\<close>
  "match_word ci lit = bounded (match_lit ci lit)"

fun skip_class :: "(char \<Rightarrow> bool) \<Rightarrow> char option \<Rightarrow> string \<Rightarrow> char option \<times> string" where
  "skip_class P prev [] = (prev, [])"
| "skip_class P prev (c # cs) = (if P c then skip_class P (Some c) cs else (prev, c # cs))"

fun plus_class :: "(char \<Rightarrow> bool) \<Rightarrow> matcher" where
  \<comment> \<open>one or more characters of a class, as many as there are (\<open>\s+\<close>, \<open>\d+\<close>)\<close>
  "plus_class P prev [] = None"
| "plus_class P prev (c # cs) = (if P c then Some (skip_class P (Some c) cs) else None)"

definition match_ws :: matcher where
  \<comment> \<open>\<open>\s+\<close>\<close>
  "match_ws = plus_class is_space"

definition match_limit :: "bool \<Rightarrow> matcher" where
  \<comment> \<open>\<open>\blimit\s+\d+\<close>: both repetitions are greedy, and as no character is both
      whitespace and a digit, giving characters back never helps\<close>
  "match_limit ci prev s =
     (if \<not> word_boundary prev (hd_opt s) then None
      else
        (case match_chars ci ''limit'' prev s of
           None \<Rightarrow> None
         | Some (l1, r1) \<Rightarrow>
             (case plus_class is_space l1 r1 of
                None \<Rightarrow> None
              | Some (l2, r2) \<Rightarrow> plus_class is_digit l2 r2)))"

definition limit_group :: "string \<Rightarrow> string" where
  \<comment> \<open>group 1 of \<open>\blimit\s+(\d+)\<close> for a text that the pattern matches at its start\<close>
  "limit_group s = takeWhile is_digit (dropWhile is_space (drop 5 s))"

fun re_search :: "matcher \<Rightarrow> char option \<Rightarrow> string \<Rightarrow> string option" where
  \<comment> \<open>\<open>re.search\<close>: the text from the leftmost match on, or \<open>None\<close> when there is no
      match\<close>
  "re_search m prev [] = (if m prev [] = None then None else Some [])"
| "re_search m prev (c # cs) =
     (if m prev (c # cs) = None then re_search m (Some c) cs else Some (c # cs))"

function re_sub :: "matcher \<Rightarrow> string \<Rightarrow> char option \<Rightarrow> string \<Rightarrow> string" where
  \<comment> \<open>\<open>re.sub\<close> with a constant replacement, for a pattern whose matches are not empty\<close>
  "re_sub m rep prev [] = []"
| "re_sub m rep prev (c # cs) =
     (case m prev (c # cs) of
        None \<Rightarrow> c # re_sub m rep (Some c) cs
      | Some (l, r) \<Rightarrow>
          if length r \<le> length cs then rep @ re_sub m rep l r
          else c # re_sub m rep (Some c) cs)"
  by pat_completeness auto
termination
  by (relation "measure (\<lambda>(m, rep, prev, s). length s)") auto

section \<open>The guarded query agent (main/agent.py)\<close>

datatype reason =
    OnlySelectAllowed
  | MultipleStatementsBlocked
  | ForbiddenSQL string
  | TableNotAllowed string
  | ColumnNotAllowed string
  | UnsupportedFileFormat

text \<open>
  \<open>ValueError\<close> carries the reason of its message: the first five are the rejections of
  the guardrail, the last is raised by the resume parser. The other errors are the
  exceptions that the string, regular expression and JSON handling can raise.
\<close>

datatype py_error = ValueError reason | AttributeError | IndexError | TypeError | ReError

definition ALLOWED_TABLES :: "string list" where
  "ALLOWED_TABLES = [''candidates_candidateprofile'']"

definition ALLOWED_COLUMNS :: "string list" where
  "ALLOWED_COLUMNS =
     [''slug'', ''resume_data'', ''willing_to_relocate'', ''employment_type_preferences'',
      ''work_mode_preferences'', ''has_workvisa'', ''disability_categories'',
      ''accommodation_needs'', ''disclosure_preference'', ''workplace_accommodations'',
      ''expected_salary_range'', ''is_available'']"

definition FORBIDDEN_SQL_PATTERNS :: "string list" where
  \<comment> \<open>each entry \<open>w\<close> stands for the pattern \<open>\bw\b\<close>\<close>
  "FORBIDDEN_SQL_PATTERNS =
     [''to_tsvector'', ''to_tsquery'', ''@@'', ''plainto_tsquery'', ''phraseto_tsquery'',
      ''websearch_to_tsquery'',
      ''insert'', ''update'', ''delete'', ''drop'', ''alter'', ''truncate'', ''create'']"

definition MAX_LIMIT :: nat where
  "MAX_LIMIT = 20"

definition DEFAULT_LIMIT :: nat where
  "DEFAULT_LIMIT = 10"

definition normalize_sql :: "string \<Rightarrow> string" where
  \<comment> \<open>\<open>re.sub(r"\s+", " ", sql.strip())\<close>\<close>
  "normalize_sql sql = re_sub match_ws '' '' None (strip sql)"

definition first_token :: "string \<Rightarrow> py_error + string" where
  \<comment> \<open>\<open>part.strip().split()[0]\<close>\<close>
  "first_token part =
     (case split_ws (strip part) of [] \<Rightarrow> Inl IndexError | t # ts \<Rightarrow> Inr t)"

fun table_tokens :: "string list \<Rightarrow> py_error + string list" where
  \<comment> \<open>the inner loop of \<open>_extract_referenced_tables\<close> over the parts after a keyword\<close>
  "table_tokens [] = Inr []"
| "table_tokens (part # parts) =
     (case first_token part of
        Inl e \<Rightarrow> Inl e
      | Inr token \<Rightarrow>
          (case table_tokens parts of
             Inl e \<Rightarrow> Inl e
           | Inr ts \<Rightarrow>
               Inr (rstrip_chars '','' (last (split ''.'' (replace [CHR 0x22] [] token))) # ts)))"

definition extract_referenced_tables :: "string \<Rightarrow> py_error + string list" where
  \<comment> \<open>The source collects the tokens in a set and returns them as a list, in the set's
      order; the model keeps the order in which they are found, without duplicates.\<close>
  "extract_referenced_tables sql =
     (let sql_l = lower sql in
      case table_tokens (tl (split '' from '' sql_l)) of
        Inl e \<Rightarrow> Inl e
      | Inr ts1 \<Rightarrow>
          (case table_tokens (tl (split '' join '' sql_l)) of
             Inl e \<Rightarrow> Inl e
           | Inr ts2 \<Rightarrow> Inr (remdups (ts1 @ ts2))))"

definition clean_column :: "string \<Rightarrow> string" where
  "clean_column c = last (split ''.'' (hd (split '' as '' (strip c))))"

definition extract_selected_columns :: "string \<Rightarrow> string list" where
  "extract_selected_columns sql =
     (let select_part = hd (split ''from'' (lower sql));
          cols = split '','' (replace ''select'' [] select_part)
      in filter (\<lambda>c. c \<noteq> ''*'') (map clean_column cols))"

definition enforce_limit :: "string \<Rightarrow> py_error + string" where
  "enforce_limit sql =
     (if \<not> py_in ''limit'' (lower sql) then Inr (sql @ '' LIMIT '' @ str_nat DEFAULT_LIMIT)
      else
        (case re_search (match_limit False) None (lower sql) of
           None \<Rightarrow> Inl AttributeError
         | Some found \<Rightarrow>
             if MAX_LIMIT < int_of_digits (limit_group found)
             then Inr (re_sub (match_limit True) (''LIMIT '' @ str_nat MAX_LIMIT) None sql)
             else Inr sql))"

definition forbidden_match :: "string \<Rightarrow> string option" where
  \<comment> \<open>the first pattern of \<open>FORBIDDEN_SQL_PATTERNS\<close> that \<open>re.search(pat, sql, re.I)\<close>
      finds\<close>
  "forbidden_match sql =
     (case filter (\<lambda>pat. re_search (match_word True pat) None sql \<noteq> None) FORBIDDEN_SQL_PATTERNS of
        [] \<Rightarrow> None
      | pat # pats \<Rightarrow> Some pat)"

definition add_availability :: "string \<Rightarrow> string" where
  "add_availability sql =
     (if \<not> py_in ''is_available'' (lower sql)
      then sql @ (if py_in ''where'' (lower sql)
                  then '' AND is_available = TRUE'' else '' WHERE is_available = TRUE'')
      else sql)"

definition sqlite_fixes :: "string \<Rightarrow> string" where
  "sqlite_fixes sql =
     re_sub (match_lit True ''::text'') [] None (re_sub (match_word True ''ilike'') ''LIKE'' None sql)"

definition validate_and_sanitize_sql :: "bool \<Rightarrow> string \<Rightarrow> py_error + string" where
  \<comment> \<open>The first argument is the value of \<open>is_sqlite()\<close>, read from the settings.\<close>
  "validate_and_sanitize_sql sqlite sql =
     (if \<not> prefix ''select'' (lower sql) then Inl (ValueError OnlySelectAllowed)
      else if py_in '';'' (rstrip_chars '';'' (strip sql)) then Inl (ValueError MultipleStatementsBlocked)
      else
        (case forbidden_match sql of
           Some pat \<Rightarrow> Inl (ValueError (ForbiddenSQL pat))
         | None \<Rightarrow>
             (case extract_referenced_tables sql of
                Inl e \<Rightarrow> Inl e
              | Inr tables \<Rightarrow>
                  (case filter (\<lambda>t. t \<notin> set ALLOWED_TABLES) tables of
                     t # ts \<Rightarrow> Inl (ValueError (TableNotAllowed t))
                   | [] \<Rightarrow>
                       (case filter (\<lambda>c. c \<notin> set ALLOWED_COLUMNS) (extract_selected_columns sql) of
                          c # cs \<Rightarrow> Inl (ValueError (ColumnNotAllowed c))
                        | [] \<Rightarrow>
                            (case enforce_limit sql of
                               Inl e \<Rightarrow> Inl e
                             | Inr sql1 \<Rightarrow>
                                 (let sql2 = add_availability sql1;
                                      sql3 = (if sqlite then sqlite_fixes sql2 else sql2)
                                  in Inr (normalize_sql sql3))))))))"

section \<open>The resume parser (candidates/resume_parser.py)\<close>

text \<open>
  A file is given by what the libraries read from it: the MIME type that
  \<open>detect_mime_type\<close> returns, the text layer of each page of a PDF, the text that the
  optical character recognition of \<open>parse_pdf_ocr\<close> returns for it, the paragraphs of a
  DOCX and the text that \<open>parse_image_text\<close> recognises in an image.
\<close>

record resume_file =
  mime :: "string option"
  page_texts :: "string list"
  pdf_ocr_text :: string
  paragraphs :: "string list"
  image_ocr_text :: string

datatype parser_call = ParsePdfText | ParsePdfOcr | ParseDocxText | ParseImageText

fun join :: "string \<Rightarrow> string list \<Rightarrow> string" where
  \<comment> \<open>\<open>sep.join(xs)\<close>\<close>
  "join sep [] = []"
| "join sep [x] = x"
| "join sep (x # y # ys) = x @ sep @ join sep (y # ys)"

definition parse_pdf_text :: "resume_file \<Rightarrow> string" where
  "parse_pdf_text f = strip (join [CHR 0x0A] (filter (\<lambda>txt. txt \<noteq> []) (page_texts f)))"

definition parse_docx_text :: "resume_file \<Rightarrow> string" where
  "parse_docx_text f = strip (join [CHR 0x0A] (filter (\<lambda>p. strip p \<noteq> []) (paragraphs f)))"

definition MIME_PDF :: string where
  "MIME_PDF = ''application/pdf''"

definition MIME_DOCX :: string where
  "MIME_DOCX = ''application/vnd.openxmlformats-officedocument.wordprocessingml.document''"

definition extract_text_by_type :: "resume_file \<Rightarrow> py_error + string \<times> parser_call list" where
  \<comment> \<open>\<open>_extract_text_by_type\<close>: the text, and the parsers that were called for it, in
      the order of the calls\<close>
  "extract_text_by_type f =
     (if mime f = Some MIME_PDF then
        (let text = parse_pdf_text f in
         if length (strip text) < 50 then Inr (pdf_ocr_text f, [ParsePdfText, ParsePdfOcr])
         else Inr (text, [ParsePdfText]))
      else if mime f = Some MIME_DOCX then Inr (parse_docx_text f, [ParseDocxText])
      else
        (case mime f of
           None \<Rightarrow> Inl (ValueError UnsupportedFileFormat)
         | Some m \<Rightarrow>
             if prefix ''image/'' m then Inr (image_ocr_text f, [ParseImageText])
             else Inl (ValueError UnsupportedFileFormat)))"

definition SKILL_LIST :: "string list" where
  "SKILL_LIST =
     [''python'', ''java'', ''c++'', ''c'', ''sql'', ''nosql'', ''mysql'', ''postgresql'', ''mongodb'',
      ''aws'', ''azure'', ''gcp'', ''docker'', ''kubernetes'', ''pytorch'', ''tensorflow'',
      ''scikit-learn'', ''react'', ''django'', ''flask'', ''fastapi'', ''git'', ''linux'',
      ''javascript'', ''html'', ''css'', ''nlp'', ''machine learning'', ''deep learning'',
      ''computer vision'', ''tableau'', ''power bi'']"

text \<open>
  \<open>extract_skills\<close> builds the pattern \<open>\bs\b\<close> from each entry \<open>s\<close> of the vocabulary
  as it is, without \<open>re.escape\<close>. One entry, \<open>c++\<close>, holds characters that are special in
  a regular expression: \<open>c++\<close> is the character \<open>c\<close> under the possessive
  quantifier \<open>++\<close> (one or more, nothing given back). Before Python 3.11 the
  possessive quantifiers do not exist and the pattern does not compile (\<open>re.error\<close>,
  multiple repeat). Every other entry consists of characters that stand for themselves.
\<close>

definition skill_matcher :: "string \<Rightarrow> matcher" where
  "skill_matcher s =
     (if s = ''c++'' then bounded (plus_class (\<lambda>c. c = CHR ''c'')) else match_word False s)"

definition extract_skills :: "bool \<Rightarrow> string \<Rightarrow> py_error + string list" where
  \<comment> \<open>The first argument tells whether the regular expression engine has the possessive
      quantifiers (Python 3.11 and later).\<close>
  "extract_skills possessive text =
     (let tl = lower text in
      if \<not> possessive then Inl ReError
      else Inr (sort (remdups (filter (\<lambda>s. re_search (skill_matcher s) None tl \<noteq> None) SKILL_LIST))))"

section \<open>The candidate ranker (main/jobpost\_candidate\_ranker.py)\<close>

datatype json =
    JNull
  | JBool bool
  | JNum int
  | JStr string
  | JArr "json list"
  | JObj "(string \<times> json) list"

datatype parsing_status = NotParsed | Parsing | Parsed | ParsingFailed

datatype ranking_status = NotRanked | Ranking | Ranked | RankingFailed

text \<open>The columns of \<open>CandidateProfile\<close> that the parsing and the ranking read or write.\<close>

record candidate_profile =
  cp_id :: nat
  cp_slug :: string
  cp_resume_file :: "string option"
  cp_resume_data :: "json option"
  cp_parsing_status :: parsing_status
  cp_work_mode_preferences :: json
  cp_employment_type_preferences :: json
  cp_has_workvisa :: bool
  cp_is_available :: bool
  cp_updated_at :: int

fun truthy :: "json \<Rightarrow> bool" where
  "truthy JNull = False"
| "truthy (JBool b) = b"
| "truthy (JNum n) = (n \<noteq> 0)"
| "truthy (JStr s) = (s \<noteq> [])"
| "truthy (JArr xs) = (xs \<noteq> [])"
| "truthy (JObj kvs) = (kvs \<noteq> [])"

fun skill_name :: "json \<Rightarrow> json option" where
  \<comment> \<open>the loop body of \<open>extract_resume_skills\<close>: what an item of the skill list adds to
      \<open>names\<close>\<close>
  "skill_name (JObj kvs) = map_of kvs ''name''"
| "skill_name (JStr s) = Some (JStr s)"
| "skill_name j = None"

fun lower_strip_all :: "json list \<Rightarrow> py_error + string list" where
  \<comment> \<open>\<open>s.lower().strip() for s in names\<close>: only a string has \<open>lower\<close>\<close>
  "lower_strip_all [] = Inr []"
| "lower_strip_all (JStr s # js) =
     (case lower_strip_all js of Inl e \<Rightarrow> Inl e | Inr ss \<Rightarrow> Inr (strip (lower s) # ss))"
| "lower_strip_all (j # js) = Inl AttributeError"

fun extract_resume_skills :: "json \<Rightarrow> py_error + string list" where
  \<comment> \<open>The result is a set in the source, here a list without duplicates. \<open>"skills" in
      resume_json\<close> raises on a number, and \<open>resume_json["skills"]\<close> on a string or a list.\<close>
  "extract_resume_skills (JObj kvs) =
     (case map_of kvs ''skills'' of
        Some (JArr items) \<Rightarrow>
          (case lower_strip_all (List.map_filter skill_name items) of
             Inl e \<Rightarrow> Inl e
           | Inr ss \<Rightarrow> Inr (remdups ss))
      | _ \<Rightarrow> Inr [])"
| "extract_resume_skills (JStr s) =
     (if s = [] then Inr [] else if py_in ''skills'' s then Inl TypeError else Inr [])"
| "extract_resume_skills (JArr xs) =
     (if xs = [] then Inr [] else if JStr ''skills'' \<in> set xs then Inl TypeError else Inr [])"
| "extract_resume_skills (JNum n) = (if n = 0 then Inr [] else Inl TypeError)"
| "extract_resume_skills (JBool b) = (if b then Inl TypeError else Inr [])"
| "extract_resume_skills JNull = Inr []"

fun preference_match :: "string \<Rightarrow> json \<Rightarrow> py_error + bool" where
  \<comment> \<open>\<open>text in [str(w).lower() for w in prefs]\<close> for a text that is not the \<open>str\<close> of a
      JSON value other than a string (the texts are the names of the workplace modes and
      of the job types). Iterating over an object gives its keys, over a string its
      characters; \<open>null\<close>, a number and a truth value cannot be iterated over.\<close>
  "preference_match text (JArr ws) = Inr (text \<in> set (List.map_filter (\<lambda>w. case w of JStr s \<Rightarrow> Some (lower s) | _ \<Rightarrow> None) ws))"
| "preference_match text (JObj kvs) = Inr (text \<in> set (map (\<lambda>kv. lower (fst kv)) kvs))"
| "preference_match text (JStr s) = Inr (text \<in> set (map (\<lambda>c. lower [c]) s))"
| "preference_match text j = Inl TypeError"

definition WORKPLACE_TYPES :: "(int \<times> string) list" where
  "WORKPLACE_TYPES = [(1, ''Hybrid''), (2, ''On-Site''), (3, ''Remote'')]"

definition WORK_TYPES :: "(int \<times> string) list" where
  "WORK_TYPES =
     [(1, ''Full-time''), (2, ''Part-time''), (3, ''Contract''), (4, ''Temporary''), (5, ''Other''),
      (6, ''Volunteer''), (7, ''Internship'')]"

definition choice_text :: "(int \<times> string) list \<Rightarrow> int \<Rightarrow> string" where
  \<comment> \<open>\<open>dict(choices).get(k, "Not specified")\<close>\<close>
  "choice_text choices k = (case map_of choices k of None \<Rightarrow> ''Not specified'' | Some t \<Rightarrow> t)"

record ranking_entry =
  candidate_id :: nat
  candidate_slug :: string
  score :: "int option + string"
  reasons :: "string list"

text \<open>
  The score of an entry is the value of \<open>result["score"]\<close>, which the source takes from
  the model's JSON as it comes: a number (\<open>Inl (Some n)\<close>), \<open>null\<close> (\<open>Inl None\<close>) or a
  string (\<open>Inr s\<close>). Numbers are integers in the model, and scores that are arrays or
  objects are left out.
\<close>

record ranking_result =
  ranked_candidates :: "ranking_entry list"
  input_tokens :: nat
  output_tokens :: nat
  cost_units :: nat
  last_updated :: string

record job_post =
  jp_id :: nat
  jp_workplace_type :: int
  jp_job_type :: int
  jp_visa_required :: bool
  jp_candidate_ranking_data :: "ranking_result option"
  jp_ranking_status :: ranking_status
  jp_ranking_task_id :: "string option"
  jp_created_at :: int

text \<open>
  What lies outside the program: the list of skills that the model returns to
  \<open>expand_job_skills\<close> (or the failure of that call), \<open>json.dumps\<close>, the clock, and for
  each candidate the number of tokens of its prompt and what its call to the model gives.
\<close>

datatype llm_reply =
    CallRaised
  | ContentRejected nat
  | Parsed_reply nat "int option + string" "string list"

text \<open>
  \<open>CallRaised\<close>: the call raised, or returned no content. \<open>ContentRejected k\<close>: the
  content had \<open>k\<close> tokens, and \<open>json.loads\<close> or the lookup of \<open>score\<close> or \<open>reasons\<close>
  raised. \<open>Parsed_reply k s rs\<close>: the content had \<open>k\<close> tokens and gave the score \<open>s\<close> and
  the reasons \<open>rs\<close>.
\<close>

record llm_call =
  call_id :: nat
  call_slug :: string
  prompt_tokens :: nat
  reply :: llm_reply

record environment =
  expanded_skills :: "py_error + string list"
  dumps :: "json \<Rightarrow> string"
  now_text :: string
  llm :: "candidate_profile \<Rightarrow> nat \<times> llm_reply"

definition candidates_qs :: "job_post \<Rightarrow> candidate_profile list \<Rightarrow> candidate_profile list" where
  \<comment> \<open>the queryset, over the rows of the table in the order of the model's \<open>Meta.ordering\<close>\<close>
  "candidates_qs job table =
     filter (\<lambda>c. cp_is_available c \<and> cp_resume_data c \<noteq> None
                 \<and> (if jp_visa_required job then cp_has_workvisa c else True)) table"

definition resume_json_of :: "candidate_profile \<Rightarrow> json" where
  \<comment> \<open>\<open>c.resume_data or {}\<close>\<close>
  "resume_json_of c =
     (case cp_resume_data c of None \<Rightarrow> JObj [] | Some j \<Rightarrow> if truthy j then j else JObj [])"

definition heuristic_score ::
  "environment \<Rightarrow> string list \<Rightarrow> job_post \<Rightarrow> candidate_profile \<Rightarrow> py_error + nat option" where
  \<comment> \<open>the body of the pre-ranking loop: \<open>None\<close> for a candidate that the loop skips\<close>
  "heuristic_score env expanded job c =
     (let resume_json = resume_json_of c in
      case extract_resume_skills resume_json of
        Inl e \<Rightarrow> Inl e
      | Inr resume_skills \<Rightarrow>
          (let resume_text_blob = lower (dumps env resume_json);
               overlap0 = length (remdups (filter (\<lambda>s. s \<in> set resume_skills) expanded));
               overlap = (if overlap0 = 0
                          then length (filter (\<lambda>s. py_in s resume_text_blob) expanded)
                          else overlap0)
           in if overlap = 0 then Inr None
              else
                (case preference_match (lower (choice_text WORKPLACE_TYPES (jp_workplace_type job)))
                        (cp_work_mode_preferences c) of
                   Inl e \<Rightarrow> Inl e
                 | Inr work \<Rightarrow>
                     (case preference_match (lower (choice_text WORK_TYPES (jp_job_type job)))
                             (cp_employment_type_preferences c) of
                        Inl e \<Rightarrow> Inl e
                      | Inr type \<Rightarrow>
                          Inr (Some (overlap * 3 + (if work then 1 else 0) + (if type then 1 else 0)))))))"

fun score_all ::
  "environment \<Rightarrow> string list \<Rightarrow> job_post \<Rightarrow> candidate_profile list
     \<Rightarrow> py_error + (nat \<times> candidate_profile) list" where
  \<comment> \<open>the pre-ranking loop: the list \<open>scored\<close>\<close>
  "score_all env expanded job [] = Inr []"
| "score_all env expanded job (c # cs) =
     (case heuristic_score env expanded job c of
        Inl e \<Rightarrow> Inl e
      | Inr h \<Rightarrow>
          (case score_all env expanded job cs of
             Inl e \<Rightarrow> Inl e
           | Inr scored \<Rightarrow> Inr (case h of None \<Rightarrow> scored | Some n \<Rightarrow> (n, c) # scored)))"

definition sort_desc :: "('a \<Rightarrow> 'k::linorder) \<Rightarrow> 'a list \<Rightarrow> 'a list" where
  \<comment> \<open>\<open>xs.sort(key=f, reverse=True)\<close>: the sort is stable, and with \<open>reverse\<close> the entries
      of equal key keep their order\<close>
  "sort_desc f xs = rev (sort_key f (rev xs))"

definition select_candidates ::
  "environment \<Rightarrow> string list \<Rightarrow> job_post \<Rightarrow> candidate_profile list
     \<Rightarrow> py_error + candidate_profile list" where
  \<comment> \<open>the list \<open>selected\<close> of \<open>ranking_algo\<close>\<close>
  "select_candidates env expanded job table =
     (let qs = candidates_qs job table in
      case score_all env expanded job qs of
        Inl e \<Rightarrow> Inl e
      | Inr scored \<Rightarrow>
          (let selected = map snd (take 5 (sort_desc fst scored)) in
           if length selected < 3
           then Inr (selected @ take (3 - length selected)
                        (filter (\<lambda>c. cp_id c \<notin> set (map cp_id selected)) qs))
           else Inr selected))"

definition error_entry :: "llm_call \<Rightarrow> ranking_entry" where
  "error_entry c =
     \<lparr>candidate_id = call_id c, candidate_slug = call_slug c, score = Inl (Some 0),
      reasons = [''Ranking error'']\<rparr>"

fun rank_loop :: "llm_call list \<Rightarrow> ranking_entry list \<times> nat \<times> nat \<times> nat" where
  \<comment> \<open>the loop of \<open>final_rank_with_llm\<close>: the entries in the order of the candidates, the
      tokens of the prompts, the tokens of the contents, and the cost\<close>
  "rank_loop [] = ([], 0, 0, 0)"
| "rank_loop (c # cs) =
     (case rank_loop cs of (entries, tin, tout, cost) \<Rightarrow>
        (case reply c of
           CallRaised \<Rightarrow> (error_entry c # entries, prompt_tokens c + tin, tout, cost)
         | ContentRejected k \<Rightarrow> (error_entry c # entries, prompt_tokens c + tin, k + tout, cost)
         | Parsed_reply k s rs \<Rightarrow>
             (\<lparr>candidate_id = call_id c, candidate_slug = call_slug c, score = s, reasons = rs\<rparr>
                # entries,
              prompt_tokens c + tin, k + tout, prompt_tokens c + 3 * k + cost)))"

text \<open>
  The cost is a floating-point number in the source, \<open>input_tokens / 1000 * 0.01 +
  output_tokens / 1000 * 0.03\<close> summed over the scored candidates; the model counts it
  exactly, in units of a hundred-thousandth.
\<close>

fun score_number :: "int option + string \<Rightarrow> int" where
  "score_number (Inl (Some n)) = n"
| "score_number s = 0"

fun score_text :: "int option + string \<Rightarrow> string" where
  "score_text (Inr s) = s"
| "score_text s = []"

fun is_number :: "int option + string \<Rightarrow> bool" where
  "is_number (Inl (Some n)) = True"
| "is_number s = False"

fun is_text :: "int option + string \<Rightarrow> bool" where
  "is_text (Inr s) = True"
| "is_text s = False"

definition sort_by_score :: "ranking_entry list \<Rightarrow> py_error + ranking_entry list" where
  \<comment> \<open>\<open>ranked_results.sort(key=lambda x: x["score"], reverse=True)\<close>. Python compares
      numbers with numbers and strings with strings; \<open>None\<close> with anything, and a number
      with a string, raise \<open>TypeError\<close>. A list of fewer than two entries is not
      compared at all.\<close>
  "sort_by_score entries =
     (if length entries < 2 then Inr entries
      else if list_all (\<lambda>e. is_number (score e)) entries
      then Inr (sort_desc (\<lambda>e. score_number (score e)) entries)
      else if list_all (\<lambda>e. is_text (score e)) entries
      then Inr (sort_desc (\<lambda>e. score_text (score e)) entries)
      else Inl TypeError)"

definition final_rank_with_llm :: "llm_call list \<Rightarrow> py_error + ranking_entry list \<times> nat \<times> nat \<times> nat" where
  "final_rank_with_llm calls =
     (case rank_loop calls of (entries, tin, tout, cost) \<Rightarrow>
        (case sort_by_score entries of
           Inl e \<Rightarrow> Inl e
         | Inr ranked \<Rightarrow> Inr (ranked, tin, tout, cost)))"

definition ranking_algo ::
  "environment \<Rightarrow> candidate_profile list \<Rightarrow> job_post \<Rightarrow> py_error + ranking_result \<times> job_post" where
  \<comment> \<open>the result, and the row of the job as \<open>job.save()\<close> writes it\<close>
  "ranking_algo env table job =
     (case expanded_skills env of
        Inl e \<Rightarrow> Inl e
      | Inr expanded \<Rightarrow>
          (case select_candidates env expanded job table of
             Inl e \<Rightarrow> Inl e
           | Inr selected \<Rightarrow>
               (case final_rank_with_llm
                       (map (\<lambda>c. \<lparr>call_id = cp_id c, call_slug = cp_slug c,
                                   prompt_tokens = fst (llm env c), reply = snd (llm env c)\<rparr>) selected) of
                  Inl e \<Rightarrow> Inl e
                | Inr (ranked, tin, tout, cost) \<Rightarrow>
                    (let result = \<lparr>ranked_candidates = ranked, input_tokens = tin,
                                    output_tokens = tout, cost_units = cost,
                                    last_updated = now_text env\<rparr>
                     in Inr (result, job\<lparr>jp_candidate_ranking_data := Some result,
                                         jp_ranking_status := Ranked\<rparr>)))))"

section \<open>The background tasks (candidates/tasks.py, main/tasks.py)\<close>

text \<open>
  A task is modelled by the rows that it saves, one after the other: the states of the
  record that a reader of the database can observe while and after the task runs.
\<close>

datatype parse_run = DownloadFailed | ParserRaised | ParserReturned "(string \<times> json) list"

text \<open>
  What happens to a run of \<open>parse_resume_task\<close> after the record is marked as parsing:
  the download fails, the parser raises, or the parser returns its dictionary.
\<close>

fun parse_resume_task :: "parse_run \<Rightarrow> candidate_profile option \<Rightarrow> candidate_profile list" where
  "parse_resume_task run None = []"
| "parse_resume_task run (Some c) =
     (if cp_resume_file c = None \<or> cp_resume_file c = Some []
      then [c\<lparr>cp_parsing_status := ParsingFailed\<rparr>]
      else
        (let c1 = c\<lparr>cp_parsing_status := Parsing\<rparr> in
         case run of
           ParserReturned d \<Rightarrow> [c1, c1\<lparr>cp_resume_data := Some (JObj d), cp_parsing_status := Parsed\<rparr>]
         | _ \<Rightarrow> [c1, c1\<lparr>cp_parsing_status := ParsingFailed\<rparr>]))"

definition cleanup_failed_parsing_tasks :: "int \<Rightarrow> candidate_profile \<Rightarrow> candidate_profile" where
  \<comment> \<open>the sweep, on one row; \<open>now\<close> in seconds\<close>
  "cleanup_failed_parsing_tasks now c =
     (if cp_parsing_status c = Parsing \<and> cp_updated_at c < now - 3600
      then c\<lparr>cp_parsing_status := NotParsed\<rparr> else c)"

fun rank_candidates_task ::
  "environment \<Rightarrow> candidate_profile list \<Rightarrow> bool \<Rightarrow> job_post option \<Rightarrow> job_post list" where
  \<comment> \<open>The third argument tells whether \<open>cache.delete\<close> raises.\<close>
  "rank_candidates_task env table cache_raises None = []"
| "rank_candidates_task env table cache_raises (Some j) =
     (let j1 = j\<lparr>jp_ranking_status := Ranking\<rparr> in
      case ranking_algo env table j1 of
        Inl e \<Rightarrow> [j1, j1\<lparr>jp_ranking_status := RankingFailed\<rparr>]
      | Inr (result, j2) \<Rightarrow>
          (let j3 = j2\<lparr>jp_candidate_ranking_data := Some result, jp_ranking_status := Ranked\<rparr> in
           if cache_raises then [j1, j2, j3, j3\<lparr>jp_ranking_status := RankingFailed\<rparr>]
           else [j1, j2, j3]))"

definition cleanup_failed_ranking_tasks :: "int \<Rightarrow> job_post \<Rightarrow> job_post" where
  "cleanup_failed_ranking_tasks now j =
     (if jp_ranking_status j = Ranking \<and> jp_created_at j < now - 7200
      then j\<lparr>jp_ranking_status := NotRanked, jp_ranking_task_id := None\<rparr> else j)"

text \<open>
  The states of a candidate's record between the operations, from a new record on (not
  parsed, no data), and the states that can be observed, which are those and the rows
  that a running task saves.
\<close>

inductive candidate_settled :: "candidate_profile \<Rightarrow> bool" where
  new_candidate: "cp_parsing_status c = NotParsed \<Longrightarrow> cp_resume_data c = None \<Longrightarrow> candidate_settled c"
| after_parse: "candidate_settled c \<Longrightarrow> candidate_settled (last (c # parse_resume_task run (Some c)))"
| after_parse_sweep: "candidate_settled c \<Longrightarrow> candidate_settled (cleanup_failed_parsing_tasks now c)"

inductive candidate_observable :: "candidate_profile \<Rightarrow> bool" where
  "candidate_settled c \<Longrightarrow> c' \<in> set (c # parse_resume_task run (Some c)) \<Longrightarrow> candidate_observable c'"

inductive job_settled :: "job_post \<Rightarrow> bool" where
  new_job: "jp_ranking_status j = NotRanked \<Longrightarrow> jp_candidate_ranking_data j = None \<Longrightarrow> job_settled j"
| after_rank: "job_settled j \<Longrightarrow> job_settled (last (j # rank_candidates_task env table cache_raises (Some j)))"
| after_rank_sweep: "job_settled j \<Longrightarrow> job_settled (cleanup_failed_ranking_tasks now j)"

inductive job_observable :: "job_post \<Rightarrow> bool" where
  "job_settled j \<Longrightarrow> j' \<in> set (j # rank_candidates_task env table cache_raises (Some j)) \<Longrightarrow> job_observable j'"





text \<open>
  For the proofs about \<open>re.sub\<close>: two texts are apart when no copy of one can begin
  inside a copy of the other, so that an occurrence of one never shares a character
  with an occurrence of the other.
\<close>

definition comparable :: "string \<Rightarrow> string \<Rightarrow> bool" where
  "comparable a b = (prefix a b \<or> prefix b a)"

definition no_overlap :: "string \<Rightarrow> string \<Rightarrow> bool" where
  "no_overlap a b = list_all (\<lambda>k. \<not> comparable (drop k a) b) [0..<length a]"

definition apart :: "string \<Rightarrow> string \<Rightarrow> bool" where
  "apart a b = (no_overlap a b \<and> no_overlap b a)"

fun ws_normal :: "string \<Rightarrow> bool" where
  \<comment> \<open>every whitespace character is a single space between two other characters or at an
      end\<close>
  "ws_normal [] = True"
| "ws_normal [c] = (if is_space c then c = CHR '' '' else True)"
| "ws_normal (c # d # cs) =
     ((if is_space c then c = CHR '' '' \<and> \<not> is_space d else True) \<and> ws_normal (d # cs))"

text \<open>What the operations keep true of a record: a finished status has its data.\<close>

definition cand_ok :: "candidate_profile \<Rightarrow> bool" where
  "cand_ok c = (cp_parsing_status c \<noteq> Parsed \<or> cp_resume_data c \<noteq> None)"

definition job_ok :: "job_post \<Rightarrow> bool" where
  "job_ok j = (jp_ranking_status j \<noteq> Ranked \<or> jp_candidate_ranking_data j \<noteq> None)"

section \<open>Sample inputs\<close>

definition scanned_pdf :: resume_file where
  "scanned_pdf =
     \<lparr>mime = Some ''application/pdf'', page_texts = [''  '', [], ''p. 1''],
      pdf_ocr_text = ''Jane Doe'', paragraphs = [], image_ocr_text = []\<rparr>"

definition sample_candidate :: candidate_profile where
  "sample_candidate =
     \<lparr>cp_id = 1, cp_slug = ''jane-1a2b3c4d'', cp_resume_file = Some ''https://files/jane.pdf'',
      cp_resume_data = None, cp_parsing_status = NotParsed, cp_work_mode_preferences = JArr [],
      cp_employment_type_preferences = JArr [], cp_has_workvisa = False, cp_is_available = True,
      cp_updated_at = 0\<rparr>"

definition sample_resume :: "(string \<times> json) list" where
  "sample_resume = [(''name'', JStr ''Jane Doe''), (''skills'', JArr [JStr ''python''])]"

definition sample_environment :: environment where
  "sample_environment =
     \<lparr>expanded_skills = Inr [''python''], dumps = (\<lambda>j. []), now_text = ''2025-01-01 00:00:00'',
      llm = (\<lambda>c. (100, CallRaised))\<rparr>"

definition sample_job :: job_post where
  "sample_job =
     \<lparr>jp_id = 7, jp_workplace_type = 3, jp_job_type = 1, jp_visa_required = False,
      jp_candidate_ranking_data = None, jp_ranking_status = NotRanked, jp_ranking_task_id = None,
      jp_created_at = 0\<rparr>"

definition empty_result :: ranking_result where
  "empty_result =
     \<lparr>ranked_candidates = [], input_tokens = 0, output_tokens = 0, cost_units = 0,
      last_updated = ''2025-01-01 00:00:00''\<rparr>"

definition parsed_candidate :: candidate_profile where
  "parsed_candidate =
     sample_candidate\<lparr>cp_resume_data := Some (JObj sample_resume), cp_parsing_status := Parsed\<rparr>"

definition reparsed_candidate :: candidate_profile where
  "reparsed_candidate = parsed_candidate\<lparr>cp_parsing_status := Parsing\<rparr>"

definition ranked_job :: job_post where
  "ranked_job =
     sample_job\<lparr>jp_candidate_ranking_data := Some empty_result, jp_ranking_status := Ranked\<rparr>"

definition failed_job :: job_post where
  "failed_job = ranked_job\<lparr>jp_ranking_status := RankingFailed\<rparr>"







section \<open>Evaluation of the character classes\<close>

lemma is_space_ascii [simp]:
  "is_space (CHR 0x09) = True" "is_space (CHR 0x0A) = True" "is_space (CHR 0x0D) = True"
  "is_space (CHR '' '') = True" "is_space (CHR ''!'') = False" "is_space (CHR 0x22) = False"
  "is_space (CHR ''#'') = False" "is_space (CHR ''$'') = False" "is_space (CHR ''%'') = False"
  "is_space (CHR ''&'') = False" "is_space (CHR 0x27) = False" "is_space (CHR ''('') = False"
  "is_space (CHR '')'') = False" "is_space (CHR ''*'') = False" "is_space (CHR ''+'') = False"
  "is_space (CHR '','') = False" "is_space (CHR ''-'') = False" "is_space (CHR ''.'') = False"
  "is_space (CHR ''/'') = False" "is_space (CHR ''0'') = False" "is_space (CHR ''1'') = False"
  "is_space (CHR ''2'') = False" "is_space (CHR ''3'') = False" "is_space (CHR ''4'') = False"
  "is_space (CHR ''5'') = False" "is_space (CHR ''6'') = False" "is_space (CHR ''7'') = False"
  "is_space (CHR ''8'') = False" "is_space (CHR ''9'') = False" "is_space (CHR '':'') = False"
  "is_space (CHR '';'') = False" "is_space (CHR ''<'') = False" "is_space (CHR ''='') = False"
  "is_space (CHR ''>'') = False" "is_space (CHR ''?'') = False" "is_space (CHR ''@'') = False"
  "is_space (CHR ''A'') = False" "is_space (CHR ''B'') = False" "is_space (CHR ''C'') = False"
  "is_space (CHR ''D'') = False" "is_space (CHR ''E'') = False" "is_space (CHR ''F'') = False"
  "is_space (CHR ''G'') = False" "is_space (CHR ''H'') = False" "is_space (CHR ''I'') = False"
  "is_space (CHR ''J'') = False" "is_space (CHR ''K'') = False" "is_space (CHR ''L'') = False"
  "is_space (CHR ''M'') = False" "is_space (CHR ''N'') = False" "is_space (CHR ''O'') = False"
  "is_space (CHR ''P'') = False" "is_space (CHR ''Q'') = False" "is_space (CHR ''R'') = False"
  "is_space (CHR ''S'') = False" "is_space (CHR ''T'') = False" "is_space (CHR ''U'') = False"
  "is_space (CHR ''V'') = False" "is_space (CHR ''W'') = False" "is_space (CHR ''X'') = False"
  "is_space (CHR ''Y'') = False" "is_space (CHR ''Z'') = False" "is_space (CHR ''['') = False"
  "is_space (CHR 0x5C) = False" "is_space (CHR '']'') = False" "is_space (CHR ''^'') = False"
  "is_space (CHR ''_'') = False" "is_space (CHR 0x60) = False" "is_space (CHR ''a'') = False"
  "is_space (CHR ''b'') = False" "is_space (CHR ''c'') = False" "is_space (CHR ''d'') = False"
  "is_space (CHR ''e'') = False" "is_space (CHR ''f'') = False" "is_space (CHR ''g'') = False"
  "is_space (CHR ''h'') = False" "is_space (CHR ''i'') = False" "is_space (CHR ''j'') = False"
  "is_space (CHR ''k'') = False" "is_space (CHR ''l'') = False" "is_space (CHR ''m'') = False"
  "is_space (CHR ''n'') = False" "is_space (CHR ''o'') = False" "is_space (CHR ''p'') = False"
  "is_space (CHR ''q'') = False" "is_space (CHR ''r'') = False" "is_space (CHR ''s'') = False"
  "is_space (CHR ''t'') = False" "is_space (CHR ''u'') = False" "is_space (CHR ''v'') = False"
  "is_space (CHR ''w'') = False" "is_space (CHR ''x'') = False" "is_space (CHR ''y'') = False"
  "is_space (CHR ''z'') = False" "is_space (CHR ''{'') = False" "is_space (CHR ''|'') = False"
  "is_space (CHR ''}'') = False" "is_space (CHR ''~'') = False"
  by (simp_all add: is_space_def)

lemma is_digit_ascii [simp]:
  "is_digit (CHR 0x09) = False" "is_digit (CHR 0x0A) = False" "is_digit (CHR 0x0D) = False"
  "is_digit (CHR '' '') = False" "is_digit (CHR ''!'') = False" "is_digit (CHR 0x22) = False"
  "is_digit (CHR ''#'') = False" "is_digit (CHR ''$'') = False" "is_digit (CHR ''%'') = False"
  "is_digit (CHR ''&'') = False" "is_digit (CHR 0x27) = False" "is_digit (CHR ''('') = False"
  "is_digit (CHR '')'') = False" "is_digit (CHR ''*'') = False" "is_digit (CHR ''+'') = False"
  "is_digit (CHR '','') = False" "is_digit (CHR ''-'') = False" "is_digit (CHR ''.'') = False"
  "is_digit (CHR ''/'') = False" "is_digit (CHR ''0'') = True" "is_digit (CHR ''1'') = True"
  "is_digit (CHR ''2'') = True" "is_digit (CHR ''3'') = True" "is_digit (CHR ''4'') = True"
  "is_digit (CHR ''5'') = True" "is_digit (CHR ''6'') = True" "is_digit (CHR ''7'') = True"
  "is_digit (CHR ''8'') = True" "is_digit (CHR ''9'') = True" "is_digit (CHR '':'') = False"
  "is_digit (CHR '';'') = False" "is_digit (CHR ''<'') = False" "is_digit (CHR ''='') = False"
  "is_digit (CHR ''>'') = False" "is_digit (CHR ''?'') = False" "is_digit (CHR ''@'') = False"
  "is_digit (CHR ''A'') = False" "is_digit (CHR ''B'') = False" "is_digit (CHR ''C'') = False"
  "is_digit (CHR ''D'') = False" "is_digit (CHR ''E'') = False" "is_digit (CHR ''F'') = False"
  "is_digit (CHR ''G'') = False" "is_digit (CHR ''H'') = False" "is_digit (CHR ''I'') = False"
  "is_digit (CHR ''J'') = False" "is_digit (CHR ''K'') = False" "is_digit (CHR ''L'') = False"
  "is_digit (CHR ''M'') = False" "is_digit (CHR ''N'') = False" "is_digit (CHR ''O'') = False"
  "is_digit (CHR ''P'') = False" "is_digit (CHR ''Q'') = False" "is_digit (CHR ''R'') = False"
  "is_digit (CHR ''S'') = False" "is_digit (CHR ''T'') = False" "is_digit (CHR ''U'') = False"
  "is_digit (CHR ''V'') = False" "is_digit (CHR ''W'') = False" "is_digit (CHR ''X'') = False"
  "is_digit (CHR ''Y'') = False" "is_digit (CHR ''Z'') = False" "is_digit (CHR ''['') = False"
  "is_digit (CHR 0x5C) = False" "is_digit (CHR '']'') = False" "is_digit (CHR ''^'') = False"
  "is_digit (CHR ''_'') = False" "is_digit (CHR 0x60) = False" "is_digit (CHR ''a'') = False"
  "is_digit (CHR ''b'') = False" "is_digit (CHR ''c'') = False" "is_digit (CHR ''d'') = False"
  "is_digit (CHR ''e'') = False" "is_digit (CHR ''f'') = False" "is_digit (CHR ''g'') = False"
  "is_digit (CHR ''h'') = False" "is_digit (CHR ''i'') = False" "is_digit (CHR ''j'') = False"
  "is_digit (CHR ''k'') = False" "is_digit (CHR ''l'') = False" "is_digit (CHR ''m'') = False"
  "is_digit (CHR ''n'') = False" "is_digit (CHR ''o'') = False" "is_digit (CHR ''p'') = False"
  "is_digit (CHR ''q'') = False" "is_digit (CHR ''r'') = False" "is_digit (CHR ''s'') = False"
  "is_digit (CHR ''t'') = False" "is_digit (CHR ''u'') = False" "is_digit (CHR ''v'') = False"
  "is_digit (CHR ''w'') = False" "is_digit (CHR ''x'') = False" "is_digit (CHR ''y'') = False"
  "is_digit (CHR ''z'') = False" "is_digit (CHR ''{'') = False" "is_digit (CHR ''|'') = False"
  "is_digit (CHR ''}'') = False" "is_digit (CHR ''~'') = False"
  by (simp_all add: is_digit_def)

lemma is_word_ascii [simp]:
  "is_word (CHR 0x09) = False" "is_word (CHR 0x0A) = False" "is_word (CHR 0x0D) = False"
  "is_word (CHR '' '') = False" "is_word (CHR ''!'') = False" "is_word (CHR 0x22) = False"
  "is_word (CHR ''#'') = False" "is_word (CHR ''$'') = False" "is_word (CHR ''%'') = False"
  "is_word (CHR ''&'') = False" "is_word (CHR 0x27) = False" "is_word (CHR ''('') = False"
  "is_word (CHR '')'') = False" "is_word (CHR ''*'') = False" "is_word (CHR ''+'') = False"
  "is_word (CHR '','') = False" "is_word (CHR ''-'') = False" "is_word (CHR ''.'') = False"
  "is_word (CHR ''/'') = False" "is_word (CHR ''0'') = True" "is_word (CHR ''1'') = True"
  "is_word (CHR ''2'') = True" "is_word (CHR ''3'') = True" "is_word (CHR ''4'') = True"
  "is_word (CHR ''5'') = True" "is_word (CHR ''6'') = True" "is_word (CHR ''7'') = True"
  "is_word (CHR ''8'') = True" "is_word (CHR ''9'') = True" "is_word (CHR '':'') = False"
  "is_word (CHR '';'') = False" "is_word (CHR ''<'') = False" "is_word (CHR ''='') = False"
  "is_word (CHR ''>'') = False" "is_word (CHR ''?'') = False" "is_word (CHR ''@'') = False"
  "is_word (CHR ''A'') = True" "is_word (CHR ''B'') = True" "is_word (CHR ''C'') = True"
  "is_word (CHR ''D'') = True" "is_word (CHR ''E'') = True" "is_word (CHR ''F'') = True"
  "is_word (CHR ''G'') = True" "is_word (CHR ''H'') = True" "is_word (CHR ''I'') = True"
  "is_word (CHR ''J'') = True" "is_word (CHR ''K'') = True" "is_word (CHR ''L'') = True"
  "is_word (CHR ''M'') = True" "is_word (CHR ''N'') = True" "is_word (CHR ''O'') = True"
  "is_word (CHR ''P'') = True" "is_word (CHR ''Q'') = True" "is_word (CHR ''R'') = True"
  "is_word (CHR ''S'') = True" "is_word (CHR ''T'') = True" "is_word (CHR ''U'') = True"
  "is_word (CHR ''V'') = True" "is_word (CHR ''W'') = True" "is_word (CHR ''X'') = True"
  "is_word (CHR ''Y'') = True" "is_word (CHR ''Z'') = True" "is_word (CHR ''['') = False"
  "is_word (CHR 0x5C) = False" "is_word (CHR '']'') = False" "is_word (CHR ''^'') = False"
  "is_word (CHR ''_'') = True" "is_word (CHR 0x60) = False" "is_word (CHR ''a'') = True"
  "is_word (CHR ''b'') = True" "is_word (CHR ''c'') = True" "is_word (CHR ''d'') = True"
  "is_word (CHR ''e'') = True" "is_word (CHR ''f'') = True" "is_word (CHR ''g'') = True"
  "is_word (CHR ''h'') = True" "is_word (CHR ''i'') = True" "is_word (CHR ''j'') = True"
  "is_word (CHR ''k'') = True" "is_word (CHR ''l'') = True" "is_word (CHR ''m'') = True"
  "is_word (CHR ''n'') = True" "is_word (CHR ''o'') = True" "is_word (CHR ''p'') = True"
  "is_word (CHR ''q'') = True" "is_word (CHR ''r'') = True" "is_word (CHR ''s'') = True"
  "is_word (CHR ''t'') = True" "is_word (CHR ''u'') = True" "is_word (CHR ''v'') = True"
  "is_word (CHR ''w'') = True" "is_word (CHR ''x'') = True" "is_word (CHR ''y'') = True"
  "is_word (CHR ''z'') = True" "is_word (CHR ''{'') = False" "is_word (CHR ''|'') = False"
  "is_word (CHR ''}'') = False" "is_word (CHR ''~'') = False"
  by (simp_all add: is_word_def)

lemma lower_char_ascii [simp]:
  "lower_char (CHR 0x09) = CHR 0x09" "lower_char (CHR 0x0A) = CHR 0x0A" "lower_char (CHR 0x0D) = CHR 0x0D"
  "lower_char (CHR '' '') = CHR '' ''" "lower_char (CHR ''!'') = CHR ''!''" "lower_char (CHR 0x22) = CHR 0x22"
  "lower_char (CHR ''#'') = CHR ''#''" "lower_char (CHR ''$'') = CHR ''$''" "lower_char (CHR ''%'') = CHR ''%''"
  "lower_char (CHR ''&'') = CHR ''&''" "lower_char (CHR 0x27) = CHR 0x27" "lower_char (CHR ''('') = CHR ''(''"
  "lower_char (CHR '')'') = CHR '')''" "lower_char (CHR ''*'') = CHR ''*''" "lower_char (CHR ''+'') = CHR ''+''"
  "lower_char (CHR '','') = CHR '',''" "lower_char (CHR ''-'') = CHR ''-''" "lower_char (CHR ''.'') = CHR ''.''"
  "lower_char (CHR ''/'') = CHR ''/''" "lower_char (CHR ''0'') = CHR ''0''" "lower_char (CHR ''1'') = CHR ''1''"
  "lower_char (CHR ''2'') = CHR ''2''" "lower_char (CHR ''3'') = CHR ''3''" "lower_char (CHR ''4'') = CHR ''4''"
  "lower_char (CHR ''5'') = CHR ''5''" "lower_char (CHR ''6'') = CHR ''6''" "lower_char (CHR ''7'') = CHR ''7''"
  "lower_char (CHR ''8'') = CHR ''8''" "lower_char (CHR ''9'') = CHR ''9''" "lower_char (CHR '':'') = CHR '':''"
  "lower_char (CHR '';'') = CHR '';''" "lower_char (CHR ''<'') = CHR ''<''" "lower_char (CHR ''='') = CHR ''=''"
  "lower_char (CHR ''>'') = CHR ''>''" "lower_char (CHR ''?'') = CHR ''?''" "lower_char (CHR ''@'') = CHR ''@''"
  "lower_char (CHR ''A'') = CHR ''a''" "lower_char (CHR ''B'') = CHR ''b''" "lower_char (CHR ''C'') = CHR ''c''"
  "lower_char (CHR ''D'') = CHR ''d''" "lower_char (CHR ''E'') = CHR ''e''" "lower_char (CHR ''F'') = CHR ''f''"
  "lower_char (CHR ''G'') = CHR ''g''" "lower_char (CHR ''H'') = CHR ''h''" "lower_char (CHR ''I'') = CHR ''i''"
  "lower_char (CHR ''J'') = CHR ''j''" "lower_char (CHR ''K'') = CHR ''k''" "lower_char (CHR ''L'') = CHR ''l''"
  "lower_char (CHR ''M'') = CHR ''m''" "lower_char (CHR ''N'') = CHR ''n''" "lower_char (CHR ''O'') = CHR ''o''"
  "lower_char (CHR ''P'') = CHR ''p''" "lower_char (CHR ''Q'') = CHR ''q''" "lower_char (CHR ''R'') = CHR ''r''"
  "lower_char (CHR ''S'') = CHR ''s''" "lower_char (CHR ''T'') = CHR ''t''" "lower_char (CHR ''U'') = CHR ''u''"
  "lower_char (CHR ''V'') = CHR ''v''" "lower_char (CHR ''W'') = CHR ''w''" "lower_char (CHR ''X'') = CHR ''x''"
  "lower_char (CHR ''Y'') = CHR ''y''" "lower_char (CHR ''Z'') = CHR ''z''" "lower_char (CHR ''['') = CHR ''[''"
  "lower_char (CHR 0x5C) = CHR 0x5C" "lower_char (CHR '']'') = CHR '']''" "lower_char (CHR ''^'') = CHR ''^''"
  "lower_char (CHR ''_'') = CHR ''_''" "lower_char (CHR 0x60) = CHR 0x60" "lower_char (CHR ''a'') = CHR ''a''"
  "lower_char (CHR ''b'') = CHR ''b''" "lower_char (CHR ''c'') = CHR ''c''" "lower_char (CHR ''d'') = CHR ''d''"
  "lower_char (CHR ''e'') = CHR ''e''" "lower_char (CHR ''f'') = CHR ''f''" "lower_char (CHR ''g'') = CHR ''g''"
  "lower_char (CHR ''h'') = CHR ''h''" "lower_char (CHR ''i'') = CHR ''i''" "lower_char (CHR ''j'') = CHR ''j''"
  "lower_char (CHR ''k'') = CHR ''k''" "lower_char (CHR ''l'') = CHR ''l''" "lower_char (CHR ''m'') = CHR ''m''"
  "lower_char (CHR ''n'') = CHR ''n''" "lower_char (CHR ''o'') = CHR ''o''" "lower_char (CHR ''p'') = CHR ''p''"
  "lower_char (CHR ''q'') = CHR ''q''" "lower_char (CHR ''r'') = CHR ''r''" "lower_char (CHR ''s'') = CHR ''s''"
  "lower_char (CHR ''t'') = CHR ''t''" "lower_char (CHR ''u'') = CHR ''u''" "lower_char (CHR ''v'') = CHR ''v''"
  "lower_char (CHR ''w'') = CHR ''w''" "lower_char (CHR ''x'') = CHR ''x''" "lower_char (CHR ''y'') = CHR ''y''"
  "lower_char (CHR ''z'') = CHR ''z''" "lower_char (CHR ''{'') = CHR ''{''" "lower_char (CHR ''|'') = CHR ''|''"
  "lower_char (CHR ''}'') = CHR ''}''" "lower_char (CHR ''~'') = CHR ''~''"
  by (simp_all add: lower_char_def char_of_eq_iff)


lemma str_nat_limits: "str_nat DEFAULT_LIMIT = ''10''" "str_nat MAX_LIMIT = ''20''"
  by (simp_all add: str_nat_def DEFAULT_LIMIT_def MAX_LIMIT_def digit_char_def char_of_eq_iff)

lemma length_simps: "length [] = 0" "length (x # xs) = Suc (length xs)"
  by simp_all

lemma nat_le_simps:
  "(0 \<le> (n::nat)) = True" "(Suc m \<le> 0) = False" "(Suc m \<le> Suc n) = (m \<le> n)"
  "(0 < Suc n) = True" "((n::nat) < 0) = False" "(Suc m < Suc n) = (m < n)"
  by simp_all

text \<open>
  The rules that evaluate the model on a given string, for \<open>simp only\<close>: the
  definitions, the equations of the recursive functions, the tables above and what is
  needed of lists.
\<close>

lemmas eval_defs = lower_def strip_def rstrip_chars_def split_def split_ws_def
  word_boundary_def match_lit_def bounded_def match_word_def match_ws_def
  match_limit_def limit_group_def ALLOWED_TABLES_def ALLOWED_COLUMNS_def FORBIDDEN_SQL_PATTERNS_def
  normalize_sql_def first_token_def extract_referenced_tables_def clean_column_def
  extract_selected_columns_def enforce_limit_def forbidden_match_def add_availability_def
  sqlite_fixes_def validate_and_sanitize_sql_def

lemmas eval_funs = py_in.simps split_aux.simps split_ws_aux.simps replace.simps hd_opt.simps
  is_word_opt.simps match_chars.simps skip_class.simps plus_class.simps re_search.simps
  re_sub.simps table_tokens.simps

lemmas eval_lib = Let_def if_True if_False simp_thms list.case option.case sum.case prod.case
  list.map filter.simps rev.simps append.simps dropWhile.simps takeWhile.simps
  list.inject list.distinct option.inject option.distinct sum.inject sum.distinct
  char.inject prefix_code remdups.simps list.set insert_iff empty_iff
  list.sel last.simps nat_le_simps drop_Suc_Cons drop_0 length_simps
  not_Cons_self2 not_Cons_self Nil_is_append_conv

lemmas eval_tabs = is_space_ascii is_digit_ascii is_word_ascii lower_char_ascii str_nat_limits

lemmas eval_congs = if_weak_cong list.case_cong_weak option.case_cong_weak sum.case_cong_weak
  prod.case_cong_weak

lemma split_aux_nonempty: "split_aux sep acc s \<noteq> []"
  by (induction sep acc s rule: split_aux.induct) auto

lemma drop_5: "drop 5 s = drop (Suc (Suc (Suc (Suc (Suc 0))))) s"
  by (simp add: eval_nat_numeral)

lemma int_of_digits_samples:
  "int_of_digits ''5'' = 5" "int_of_digits ''10'' = 10" "int_of_digits ''1000'' = 1000"
  by (simp_all add: int_of_digits_def)

lemma MAX_LIMIT_samples:
  "(MAX_LIMIT < 5) = False" "(MAX_LIMIT < 10) = False" "(MAX_LIMIT < 1000) = True"
  by (simp_all add: MAX_LIMIT_def)

lemmas eval_all = drop_5 drop_Nil eval_defs eval_funs eval_lib eval_tabs int_of_digits_samples
  MAX_LIMIT_samples

section \<open>The guardrail on given statements\<close>

text \<open>
  C1. The guardrail is to reject every statement that names, after \<open>FROM\<close> or \<open>JOIN\<close>, a
  table other than \<open>candidates_candidateprofile\<close>. \<open>_extract_referenced_tables\<close> looks for
  the keywords with one space on each side, so a \<open>FROM\<close> at the start of a line is not
  seen: the statement below reads the table \<open>users_user\<close> (under the alias
  \<open>is_available\<close>) and is accepted, with its line break turned into a space.
\<close>

theorem C1_other_table_accepted:
  "validate_and_sanitize_sql False
     (''SELECT *'' @ [CHR 0x0A] @ ''FROM users_user is_available LIMIT 10'')
   = Inr ''SELECT * FROM users_user is_available LIMIT 10''"
  by (simp only: eval_all cong: eval_congs)

text \<open>
  C2. The guardrail is to reject every statement that holds a forbidden keyword or a
  full-text-search operator. The pattern for the operator is \<open>\b@@\b\<close>, which asks for a
  letter, a digit or an underscore right before and right after \<open>@@\<close>; the operator
  written between spaces is not found, and the statement below is accepted as it is.
\<close>

theorem C2_match_operator_accepted:
  "validate_and_sanitize_sql False
     ''SELECT slug FROM candidates_candidateprofile WHERE is_available AND resume_data::text @@ 'python' LIMIT 10''
   = Inr ''SELECT slug FROM candidates_candidateprofile WHERE is_available AND resume_data::text @@ 'python' LIMIT 10''"
  by (simp only: eval_all cong: eval_congs)

text \<open>
  C4. A \<open>LIMIT\<close> above the maximum of 20 is to be clamped. \<open>_enforce_limit\<close> reads the
  number of the first \<open>LIMIT\<close> of the statement only: below, the first one is the limit
  of the subquery, 5, and the limit of the statement itself, 1000, stays.
\<close>

theorem C4_outer_limit_not_clamped:
  "validate_and_sanitize_sql False
     ''SELECT slug FROM candidates_candidateprofile WHERE is_available AND slug IN (SELECT slug FROM candidates_candidateprofile LIMIT 5) LIMIT 1000''
   = Inr ''SELECT slug FROM candidates_candidateprofile WHERE is_available AND slug IN (SELECT slug FROM candidates_candidateprofile LIMIT 5) LIMIT 1000''"
  by (simp only: eval_all cong: eval_congs)

text \<open>
  C10. The guardrail is to return a statement or to raise \<open>ValueError\<close>. On a statement
  that holds the letters \<open>limit\<close> but no \<open>LIMIT\<close> with a number, \<open>re.search\<close> returns
  \<open>None\<close> in \<open>_enforce_limit\<close> and the call of \<open>group\<close> raises \<open>AttributeError\<close>.
\<close>

theorem C10_attribute_error_escapes:
  "validate_and_sanitize_sql False
     ''SELECT slug FROM candidates_candidateprofile WHERE resume_data::text ILIKE '%limited%' AND is_available = TRUE''
   = Inl AttributeError"
  by (simp only: eval_all cong: eval_congs)

text \<open>
  A second exception of another kind: after a \<open>FROM\<close> that nothing follows,
  \<open>split()[0]\<close> raises \<open>IndexError\<close> in \<open>_extract_referenced_tables\<close>.
\<close>

lemma index_error_escapes: "validate_and_sanitize_sql False ''SELECT slug FROM '' = Inl IndexError"
  by (simp only: eval_all cong: eval_congs)

section \<open>The skills of a given text\<close>

text \<open>
  C8. \<open>extract_skills\<close> is to return exactly the entries of the vocabulary that stand in
  the text as whole words. The text below holds the word \<open>C\<close> and nowhere \<open>C++\<close>, yet
  \<open>c++\<close> is returned: its pattern \<open>\bc++\b\<close> matches any run of the letter \<open>c\<close> that
  is a word.
\<close>

theorem C8_skill_not_in_text:
  "extract_skills True ''C developer'' = Inr [''c'', ''c++'']"
  by (simp only: extract_skills_def SKILL_LIST_def skill_matcher_def eval_all cong: eval_congs) simp

text \<open>Without the possessive quantifiers the pattern is refused, whatever the text.\<close>

lemma extract_skills_re_error: "extract_skills False text = Inl ReError"
  by (simp add: extract_skills_def)

section \<open>The fallback to character recognition\<close>





lemma scanned_pdf_calls:
  "extract_text_by_type scanned_pdf = Inr (''Jane Doe'', [ParsePdfText, ParsePdfOcr])"
  by (simp add: extract_text_by_type_def scanned_pdf_def MIME_PDF_def parse_pdf_text_def strip_def)

section \<open>The status of a record and its data\<close>

lemma parse_task_ok:
  "cand_ok c \<Longrightarrow> c' \<in> set (c # parse_resume_task run (Some c)) \<Longrightarrow> cand_ok c'"
  by (auto simp: cand_ok_def Let_def split: if_splits parse_run.splits)

lemma parse_sweep_ok: "cand_ok c \<Longrightarrow> cand_ok (cleanup_failed_parsing_tasks now c)"
  by (simp add: cand_ok_def cleanup_failed_parsing_tasks_def)

lemma candidate_settled_ok: "candidate_settled c \<Longrightarrow> cand_ok c"
proof (induction rule: candidate_settled.induct)
  case (new_candidate c)
  then show ?case by (simp add: cand_ok_def)
next
  case (after_parse c run)
  have "last (c # parse_resume_task run (Some c)) \<in> set (c # parse_resume_task run (Some c))"
    by (rule last_in_set) simp
  with after_parse.IH show ?case by (rule parse_task_ok)
next
  case (after_parse_sweep c now)
  from after_parse_sweep.IH show ?case by (rule parse_sweep_ok)
qed

lemma ranking_algo_ok: "ranking_algo env table j = Inr (result, j') \<Longrightarrow> job_ok j'"
  by (auto simp: ranking_algo_def job_ok_def Let_def split: sum.splits prod.splits)

lemma rank_task_ok:
  "job_ok j \<Longrightarrow> j' \<in> set (j # rank_candidates_task env table cr (Some j)) \<Longrightarrow> job_ok j'"
  by (auto simp: Let_def job_ok_def split: sum.splits prod.splits if_splits dest: ranking_algo_ok)

lemma rank_sweep_ok: "job_ok j \<Longrightarrow> job_ok (cleanup_failed_ranking_tasks now j)"
  by (simp add: job_ok_def cleanup_failed_ranking_tasks_def)

lemma job_settled_ok: "job_settled j \<Longrightarrow> job_ok j"
proof (induction rule: job_settled.induct)
  case (new_job j)
  then show ?case by (simp add: job_ok_def)
next
  case (after_rank j env table cr)
  have "last (j # rank_candidates_task env table cr (Some j))
          \<in> set (j # rank_candidates_task env table cr (Some j))"
    by (rule last_in_set) simp
  with after_rank.IH show ?case by (rule rank_task_ok)
next
  case (after_rank_sweep j now)
  from after_rank_sweep.IH show ?case by (rule rank_sweep_ok)
qed

lemma parsed_candidate_settled: "candidate_settled parsed_candidate"
proof -
  have "candidate_settled sample_candidate"
    by (rule new_candidate) (simp_all add: sample_candidate_def)
  then have "candidate_settled
      (last (sample_candidate # parse_resume_task (ParserReturned sample_resume) (Some sample_candidate)))"
    by (rule after_parse)
  then show ?thesis by (simp add: parsed_candidate_def sample_candidate_def)
qed

lemma sample_ranking_algo:
  "ranking_algo sample_environment [] (j\<lparr>jp_ranking_status := Ranking\<rparr>) =
     Inr (empty_result, j\<lparr>jp_ranking_status := Ranked, jp_candidate_ranking_data := Some empty_result\<rparr>)"
  by (simp add: ranking_algo_def sample_environment_def select_candidates_def candidates_qs_def
      sort_desc_def final_rank_with_llm_def sort_by_score_def empty_result_def Let_def)

lemma ranked_job_settled: "job_settled ranked_job"
proof -
  have "job_settled sample_job"
    by (rule new_job) (simp_all add: sample_job_def)
  then have "job_settled
      (last (sample_job # rank_candidates_task sample_environment [] False (Some sample_job)))"
    by (rule after_rank)
  then show ?thesis by (simp add: ranked_job_def sample_ranking_algo)
qed

text \<open>
  C9 says that at every point that the parsing task, the ranking task and the two sweeps
  can reach, the data of a record is present if and only if its status is \<open>parsed\<close>
  (\<open>ranked\<close> for a job). No operation clears the data, so the data of an earlier run
  stays under every later status: a candidate that is parsed a second time is in the
  status \<open>parsing\<close> with the data of the first run, and a job whose ranking task fails
  after saving the result (\<open>cache.delete\<close> raising) is in the status \<open>failed\<close> with
  the result.
\<close>

theorem C9_data_under_other_status:
  "candidate_observable reparsed_candidate
   \<and> cp_parsing_status reparsed_candidate = Parsing
   \<and> cp_resume_data reparsed_candidate = Some (JObj sample_resume)
   \<and> job_observable failed_job
   \<and> jp_ranking_status failed_job = RankingFailed
   \<and> jp_candidate_ranking_data failed_job = Some empty_result"
proof -
  have "reparsed_candidate
          \<in> set (parsed_candidate # parse_resume_task DownloadFailed (Some parsed_candidate))"
    by (simp add: reparsed_candidate_def parsed_candidate_def sample_candidate_def)
  with parsed_candidate_settled have c: "candidate_observable reparsed_candidate"
    by (rule candidate_observable.intros)
  have "job_settled sample_job"
    by (rule new_job) (simp_all add: sample_job_def)
  moreover have "failed_job
          \<in> set (sample_job # rank_candidates_task sample_environment [] True (Some sample_job))"
    by (simp add: sample_ranking_algo failed_job_def ranked_job_def)
  ultimately have j: "job_observable failed_job"
    by (rule job_observable.intros)
  show ?thesis using c j
    by (simp add: reparsed_candidate_def parsed_candidate_def failed_job_def ranked_job_def)
qed

text \<open>
  C9, amended. At every such point, a candidate in the status \<open>parsed\<close> has its
  extracted fields, and a job in the status \<open>ranked\<close> has its ranking result.
\<close>

theorem C9_data_present_when_done:
  "(candidate_observable c \<and> cp_parsing_status c = Parsed \<longrightarrow> cp_resume_data c \<noteq> None)
   \<and> (job_observable j \<and> jp_ranking_status j = Ranked \<longrightarrow> jp_candidate_ranking_data j \<noteq> None)"
proof (intro conjI impI)
  assume a: "candidate_observable c \<and> cp_parsing_status c = Parsed"
  then obtain c0 run
    where "candidate_settled c0" "c \<in> set (c0 # parse_resume_task run (Some c0))"
    by (auto elim: candidate_observable.cases)
  then have "cand_ok c" using candidate_settled_ok parse_task_ok by blast
  with a show "cp_resume_data c \<noteq> None" by (simp add: cand_ok_def)
next
  assume a: "job_observable j \<and> jp_ranking_status j = Ranked"
  then obtain j0 env table cr
    where "job_settled j0" "j \<in> set (j0 # rank_candidates_task env table cr (Some j0))"
    by (auto elim: job_observable.cases)
  then have "job_ok j" using job_settled_ok rank_task_ok by blast
  with a show "jp_candidate_ranking_data j \<noteq> None" by (simp add: job_ok_def)
qed

theorem C9_data_present_when_done_witness:
  "candidate_observable parsed_candidate \<and> cp_parsing_status parsed_candidate = Parsed
   \<and> cp_resume_data parsed_candidate \<noteq> None
   \<and> job_observable ranked_job \<and> jp_ranking_status ranked_job = Ranked
   \<and> jp_candidate_ranking_data ranked_job \<noteq> None"
proof -
  have "parsed_candidate
          \<in> set (parsed_candidate # parse_resume_task DownloadFailed (Some parsed_candidate))"
    by simp
  with parsed_candidate_settled have c: "candidate_observable parsed_candidate"
    by (rule candidate_observable.intros)
  have "ranked_job
          \<in> set (ranked_job # rank_candidates_task sample_environment [] False (Some ranked_job))"
    by simp
  with ranked_job_settled have j: "job_observable ranked_job"
    by (rule job_observable.intros)
  have sc: "cp_parsing_status parsed_candidate = Parsed"
    by (simp add: parsed_candidate_def)
  have sj: "jp_ranking_status ranked_job = Ranked"
    by (simp add: ranked_job_def)
  show ?thesis
    using C9_data_present_when_done [of parsed_candidate ranked_job] c j sc sj by simp
qed

section \<open>Failures while scoring\<close>







lemma sort_desc_mset: "mset (sort_desc f xs) = mset xs"
  by (simp add: sort_desc_def)

lemma sort_desc_sorted: "sorted (rev (map f (sort_desc f xs)))"
  by (simp add: sort_desc_def rev_map)

section \<open>The selection for scoring\<close>



















section \<open>Facts about the strings and the substitutions\<close>

lemma is_space_lower_char [simp]: "is_space (lower_char c) = is_space c"
  by (auto simp: is_space_def lower_char_def Let_def)

lemma is_digit_lower_char [simp]: "is_digit (lower_char c) = is_digit c"
  by (auto simp: is_digit_def lower_char_def Let_def)

lemma is_word_lower_char [simp]: "is_word (lower_char c) = is_word c"
  by (auto simp: is_word_def lower_char_def Let_def)

lemma lower_simps [simp]:
  "lower [] = []" "lower (c # cs) = lower_char c # lower cs" "lower (a @ b) = lower a @ lower b"
  "length (lower s) = length s" "lower (rev s) = rev (lower s)"
  "lower (take n s) = take n (lower s)" "lower (drop n s) = drop n (lower s)"
  by (simp_all add: lower_def rev_map take_map drop_map)

lemma py_in_sublist: "py_in sub s = sublist sub s"
  by (induction s) (simp_all add: sublist_Cons_right)

lemma sublist_split:
  "sublist w (u @ v) \<Longrightarrow> (\<exists>p<length u. prefix w (drop p (u @ v))) \<or> sublist w v"
proof (induction u)
  case Nil
  then show ?case by simp
next
  case (Cons x u)
  from Cons.prems have "prefix w (x # u @ v) \<or> sublist w (u @ v)"
    by (simp add: sublist_Cons_right)
  then show ?case
  proof
    assume "prefix w (x # u @ v)"
    then have "\<exists>p<length (x # u). prefix w (drop p ((x # u) @ v))"
      by (intro exI [of _ 0]) simp
    then show ?thesis ..
  next
    assume "sublist w (u @ v)"
    from Cons.IH [OF this] show ?thesis
    proof
      assume "\<exists>p<length u. prefix w (drop p (u @ v))"
      then obtain p where "p < length u" "prefix w (drop p (u @ v))" by blast
      then have "Suc p < length (x # u) \<and> prefix w (drop (Suc p) ((x # u) @ v))" by simp
      then show ?thesis by blast
    next
      assume "sublist w v"
      then show ?thesis ..
    qed
  qed
qed

lemma no_overlapD:
  assumes "no_overlap a b" "k < length a"
  shows "\<not> prefix (drop k a) b" "\<not> prefix b (drop k a)"
  using assms by (auto simp: no_overlap_def comparable_def list_all_iff)

lemma no_overlap_suffixD:
  assumes "no_overlap a b" "suffix a' a" "a' \<noteq> []"
  shows "\<not> prefix a' b" "\<not> prefix b a'"
proof -
  from assms(2) obtain u where a: "a = u @ a'" by (auto simp: suffix_def)
  with assms(3) have "length u < length a" "drop (length u) a = a'" by simp_all
  with no_overlapD [OF assms(1), of "length u"]
  show "\<not> prefix a' b" "\<not> prefix b a'" by simp_all
qed

lemma prefix_append_comparable: "prefix w (a @ x) \<Longrightarrow> prefix w a \<or> prefix a w"
  by (auto simp: prefix_append)

text \<open>What is kept by a substitution whose matches stay clear of a text \<open>w\<close>.\<close>

lemma re_sub_keeps_prefix:
  assumes S: "\<And>prev s w'. m prev s \<noteq> None \<Longrightarrow> suffix w' w \<Longrightarrow> w' \<noteq> [] \<Longrightarrow> \<not> prefix w' (lower s)"
  shows "suffix w' w \<Longrightarrow> prefix w' (lower s) \<Longrightarrow> prefix w' (lower (re_sub m rep prev s))"
proof (induction w' arbitrary: s prev)
  case Nil
  then show ?case by simp
next
  case (Cons x xs)
  from Cons.prems(2) obtain c cs where s: "s = c # cs" "lower_char c = x" "prefix xs (lower cs)"
    by (cases s) auto
  have "m prev s = None"
  proof (rule ccontr)
    assume "m prev s \<noteq> None"
    from S [OF this Cons.prems(1)] Cons.prems(2) show False by simp
  qed
  then have r: "re_sub m rep prev s = c # re_sub m rep (Some c) cs"
    by (simp add: s)
  from Cons.prems(1) have "suffix xs w" by (rule suffix_ConsD)
  from Cons.IH [OF this s(3)] show ?case
    by (simp add: r s(2))
qed

lemma re_sub_keeps:
  assumes N: "\<And>prev s l r. m prev s = Some (l, r) \<Longrightarrow>
                 \<exists>mt. s = mt @ r \<and> (\<forall>p<length mt. \<not> prefix w (lower (drop p s)))"
    and S: "\<And>prev s w'. m prev s \<noteq> None \<Longrightarrow> suffix w' w \<Longrightarrow> w' \<noteq> [] \<Longrightarrow> \<not> prefix w' (lower s)"
    and w: "w \<noteq> []"
  shows "sublist w (lower s) \<Longrightarrow> sublist w (lower (re_sub m rep prev s))"
proof (induction s arbitrary: prev rule: length_induct)
  case (1 s)
  have IH: "sublist w (lower (re_sub m rep pv ys))"
    if "length ys < length s" "sublist w (lower ys)" for ys pv
    using "1.IH" that by blast
  show ?case
  proof (cases s)
    case Nil
    with "1.prems" w show ?thesis by simp
  next
    case (Cons c cs)
    from "1.prems" Cons have occ: "prefix w (lower (c # cs)) \<or> sublist w (lower cs)"
      by (simp add: sublist_Cons_right)
    show ?thesis
    proof (cases "m prev (c # cs)")
      case None
      then have r: "re_sub m rep prev (c # cs) = c # re_sub m rep (Some c) cs" by simp
      from occ show ?thesis
      proof
        assume p: "prefix w (lower (c # cs))"
        have "prefix w (lower (re_sub m rep prev (c # cs)))"
          using S p by (intro re_sub_keeps_prefix [where w = w]) simp_all
        then show ?thesis by (simp add: Cons)
      next
        assume "sublist w (lower cs)"
        then have "sublist w (lower (re_sub m rep (Some c) cs))"
          by (intro IH) (simp_all add: Cons)
        then show ?thesis unfolding Cons r by (simp add: sublist_Cons_right)
      qed
    next
      case (Some lr)
      obtain l r where lr: "lr = (l, r)" by (cases lr)
      have notp: "\<not> prefix w (lower (c # cs))"
        using S [of prev "c # cs" w] Some w by simp
      show ?thesis
      proof (cases "length r \<le> length cs")
        case True
        from N Some lr obtain mt
          where mt: "c # cs = mt @ r" "\<forall>p<length mt. \<not> prefix w (lower (drop p (c # cs)))"
          by blast
        from "1.prems" Cons mt(1) have "sublist w (lower mt @ lower r)"
          by (metis lower_simps(3))
        from sublist_split [OF this] have "(\<exists>p<length mt. prefix w (drop p (lower (c # cs)))) \<or> sublist w (lower r)"
          by (simp add: mt(1))
        with mt(2) have "sublist w (lower r)" by auto
        then have "sublist w (lower (re_sub m rep l r))"
          using True by (intro IH) (simp_all add: Cons)
        then have "sublist w (lower rep @ lower (re_sub m rep l r))"
          by (metis sublist_append)
        with Some lr True show ?thesis by (simp add: Cons)
      next
        case False
        from occ notp have "sublist w (lower cs)" by simp
        then have "sublist w (lower (re_sub m rep (Some c) cs))"
          by (intro IH) (simp_all add: Cons)
        with Some lr False show ?thesis by (simp add: Cons sublist_Cons_right)
      qed
    qed
  qed
qed

lemma re_sub_reflects_prefix:
  assumes A: "no_overlap w (lower rep)"
  shows "suffix w' w \<Longrightarrow> prefix w' (lower (re_sub m rep prev s)) \<Longrightarrow> prefix w' (lower s)"
proof (induction s arbitrary: prev w' rule: length_induct)
  case (1 s)
  have IH: "prefix v (lower ys)"
    if "length ys < length s" "suffix v w" "prefix v (lower (re_sub m rep pv ys))" for ys pv v
    using "1.IH" that by blast
  show ?case
  proof (cases w')
    case Nil
    then show ?thesis by simp
  next
    case w': (Cons x xs)
    show ?thesis
    proof (cases s)
      case Nil
      with "1.prems"(2) w' show ?thesis by simp
    next
      case (Cons c cs)
      have keep: "prefix w' (lower (c # cs))"
        if "prefix w' (lower (c # re_sub m rep (Some c) cs))"
      proof -
        from that w' have x: "x = lower_char c" "prefix xs (lower (re_sub m rep (Some c) cs))"
          by simp_all
        from "1.prems"(1) w' have "suffix xs w" by (auto dest: suffix_ConsD)
        with x(2) have "prefix xs (lower cs)"
          by (intro IH [of cs xs "Some c"]) (simp_all add: Cons)
        with x(1) w' show ?thesis by simp
      qed
      show ?thesis
      proof (cases "m prev (c # cs)")
        case None
        with "1.prems"(2) keep show ?thesis by (simp add: Cons)
      next
        case (Some lr)
        obtain l r where lr: "lr = (l, r)" by (cases lr)
        show ?thesis
        proof (cases "length r \<le> length cs")
          case True
          with "1.prems"(2) Some lr have "prefix w' (lower rep @ lower (re_sub m rep l r))"
            by (simp add: Cons)
          then have "prefix w' (lower rep) \<or> prefix (lower rep) w'"
            by (rule prefix_append_comparable)
          moreover from w' have "w' \<noteq> []" by simp
          ultimately show ?thesis
            using no_overlap_suffixD [OF A "1.prems"(1)] by blast
        next
          case False
          with "1.prems"(2) Some lr keep show ?thesis by (simp add: Cons)
        qed
      qed
    qed
  qed
qed

text \<open>What a substitution cannot bring about, when the replacement is apart from \<open>w\<close>.\<close>

lemma re_sub_reflects:
  assumes wf: "\<And>prev s l r. m prev s = Some (l, r) \<Longrightarrow> \<exists>mt. s = mt @ r"
    and A: "apart (lower rep) w"
  shows "sublist w (lower (re_sub m rep prev s)) \<Longrightarrow> sublist w (lower s)"
proof (induction s arbitrary: prev rule: length_induct)
  case (1 s)
  have IH: "sublist w (lower ys)"
    if "length ys < length s" "sublist w (lower (re_sub m rep pv ys))" for ys pv
    using "1.IH" that by blast
  from A have A1: "no_overlap (lower rep) w" and A2: "no_overlap w (lower rep)"
    by (simp_all add: apart_def)
  show ?case
  proof (cases s)
    case Nil
    with "1.prems" show ?thesis by simp
  next
    case (Cons c cs)
    have keep: "sublist w (lower (c # cs))"
      if eq: "re_sub m rep prev (c # cs) = c # re_sub m rep (Some c) cs"
    proof -
      from "1.prems" have "sublist w (lower (c # re_sub m rep (Some c) cs))"
        unfolding Cons eq .
      then have "prefix w (lower (c # re_sub m rep (Some c) cs))
          \<or> sublist w (lower (re_sub m rep (Some c) cs))"
        by (simp add: sublist_Cons_right)
      then show ?thesis
      proof
        assume "prefix w (lower (c # re_sub m rep (Some c) cs))"
        then have "prefix w (lower (re_sub m rep prev (c # cs)))"
          unfolding eq .
        with A2 have "prefix w (lower (c # cs))"
          by (rule re_sub_reflects_prefix [OF _ suffix_order.refl])
        then show ?thesis by (rule prefix_imp_sublist)
      next
        assume "sublist w (lower (re_sub m rep (Some c) cs))"
        with IH [of cs "Some c"] have "sublist w (lower cs)"
          by (simp add: Cons)
        then show ?thesis by (simp add: sublist_Cons_right)
      qed
    qed
    show ?thesis
    proof (cases "m prev (c # cs)")
      case None
      then have "re_sub m rep prev (c # cs) = c # re_sub m rep (Some c) cs" by simp
      from keep [OF this] show ?thesis unfolding Cons .
    next
      case (Some lr)
      obtain l r where lr: "lr = (l, r)" by (cases lr)
      show ?thesis
      proof (cases "length r \<le> length cs")
        case True
        from wf Some lr obtain mt where mt: "c # cs = mt @ r" by blast
        from "1.prems" Some lr True have "sublist w (lower rep @ lower (re_sub m rep l r))"
          by (simp add: Cons)
        from sublist_split [OF this]
        have "sublist w (lower (re_sub m rep l r))"
        proof
          assume "\<exists>p<length (lower rep). prefix w (drop p (lower rep @ lower (re_sub m rep l r)))"
          then obtain p where p: "p < length (lower rep)"
            "prefix w (drop p (lower rep) @ lower (re_sub m rep l r))" by auto
          from p(2) have "prefix w (drop p (lower rep)) \<or> prefix (drop p (lower rep)) w"
            by (rule prefix_append_comparable)
          with no_overlapD [OF A1 p(1)] show ?thesis by blast
        qed
        with IH [of r l] True have "sublist w (lower r)"
          by (simp add: Cons)
        then have "sublist w (lower mt @ lower r)"
          by (simp add: sublist_append)
        then have "sublist w (lower (mt @ r))" by simp
        then show ?thesis unfolding Cons mt [symmetric] .
      next
        case False
        with Some lr have "re_sub m rep prev (c # cs) = c # re_sub m rep (Some c) cs" by simp
        from keep [OF this] show ?thesis unfolding Cons .
      qed
    qed
  qed
qed

text \<open>The matchers: what a match is made of.\<close>

lemma match_chars_SomeD:
  "match_chars ci lit prev s = Some (l, r) \<Longrightarrow>
     \<exists>mt. s = mt @ r \<and> (if ci then lower mt else mt) = lit"
proof (induction ci lit prev s rule: match_chars.induct)
  case (1 ci prev s)
  then show ?case by simp
next
  case (2 ci x xs prev)
  then show ?case by simp
next
  case (3 ci x xs prev c cs)
  show ?case
  proof (cases "(if ci then lower_char c else c) = x")
    case False
    with "3.prems" show ?thesis by simp
  next
    case True
    with "3.prems" have rest: "match_chars ci xs (Some c) cs = Some (l, r)" by simp
    from "3.IH" [OF True rest] obtain mt
      where mt: "cs = mt @ r" "(if ci then lower mt else mt) = xs"
      by blast
    have "c # cs = (c # mt) @ r" unfolding mt(1) by simp
    moreover have "(if ci then lower (c # mt) else c # mt) = x # xs"
      using True mt(2) by (cases ci) simp_all
    ultimately show ?thesis by blast
  qed
qed

lemma match_lit_SomeD:
  assumes "match_lit True lit prev s = Some (l, r)"
  shows "\<exists>mt. s = mt @ r \<and> lower mt = lit \<and> lit \<noteq> []"
proof -
  from assms have n: "lit \<noteq> []" and m: "match_chars True lit prev s = Some (l, r)"
    by (simp_all add: match_lit_def split: if_splits)
  from match_chars_SomeD [OF m] obtain mt where "s = mt @ r" "lower mt = lit" by auto
  with n show ?thesis by blast
qed

lemma bounded_SomeD:
  assumes "bounded m prev s = Some (l, r)"
  shows "m prev s = Some (l, r)"
proof (cases "m prev s")
  case None
  with assms show ?thesis by (simp add: bounded_def split: if_splits)
next
  case (Some lr)
  with assms show ?thesis by (cases lr) (simp add: bounded_def split: if_splits)
qed

lemma match_word_SomeD:
  assumes "match_word True lit prev s = Some (l, r)"
  shows "\<exists>mt. s = mt @ r \<and> lower mt = lit \<and> lit \<noteq> []"
proof -
  from assms have "match_lit True lit prev s = Some (l, r)"
    unfolding match_word_def by (rule bounded_SomeD)
  then show ?thesis by (rule match_lit_SomeD)
qed

lemma skip_class_snd: "snd (skip_class P prev s) = dropWhile P s"
  by (induction P prev s rule: skip_class.induct) simp_all

lemma plus_class_SomeD:
  assumes "plus_class P prev s = Some (l, r)"
  shows "\<exists>mt. s = mt @ r \<and> mt \<noteq> [] \<and> (\<forall>c \<in> set mt. P c) \<and> r = dropWhile P s"
proof (cases s)
  case Nil
  with assms show ?thesis by simp
next
  case (Cons c cs)
  with assms have c: "P c" and sk: "skip_class P (Some c) cs = (l, r)"
    by (simp_all split: if_splits)
  from sk skip_class_snd [of P "Some c" cs] have r: "r = dropWhile P cs" by simp
  have "s = (c # takeWhile P cs) @ r" unfolding Cons r by simp
  moreover have "\<forall>d \<in> set (c # takeWhile P cs). P d"
    using c by (auto dest: set_takeWhileD)
  moreover have "r = dropWhile P s" unfolding Cons r using c by simp
  ultimately show ?thesis by blast
qed

lemma match_limit_SomeD:
  assumes "match_limit ci prev s = Some (l, r)"
  shows "\<exists>mt. s = mt @ r"
proof -
  from assms have b: "word_boundary prev (hd_opt s)"
    by (simp add: match_limit_def split: if_splits)
  from assms b obtain l1 r1 where m1: "match_chars ci ''limit'' prev s = Some (l1, r1)"
    by (cases "match_chars ci ''limit'' prev s") (auto simp: match_limit_def)
  from assms b m1 obtain l2 r2 where m2: "plus_class is_space l1 r1 = Some (l2, r2)"
    by (cases "plus_class is_space l1 r1") (auto simp: match_limit_def)
  from assms b m1 m2 have m3: "plus_class is_digit l2 r2 = Some (l, r)"
    by (simp add: match_limit_def)
  from match_chars_SomeD [OF m1] obtain a where a: "s = a @ r1" by blast
  from plus_class_SomeD [OF m2] obtain b where b: "r1 = b @ r2" by blast
  from plus_class_SomeD [OF m3] obtain c where c: "r2 = c @ r" by blast
  have "s = (a @ b @ c) @ r" unfolding a b c by simp
  then show ?thesis by blast
qed

lemma literal_keeps:
  assumes lm: "\<And>prev s l r. m prev s = Some (l, r) \<Longrightarrow> \<exists>mt. s = mt @ r \<and> lower mt = lit \<and> lit \<noteq> []"
    and ap: "apart lit w" and w: "w \<noteq> []"
  shows "sublist w (lower s) \<Longrightarrow> sublist w (lower (re_sub m rep prev s))"
proof (rule re_sub_keeps [where w = w])
  from ap have A1: "no_overlap lit w" and A2: "no_overlap w lit"
    by (simp_all add: apart_def)
  show "\<exists>mt. s = mt @ r \<and> (\<forall>p<length mt. \<not> prefix w (lower (drop p s)))"
    if "m prev s = Some (l, r)" for prev s l r
  proof -
    from lm [OF that] obtain mt where mt: "s = mt @ r" "lower mt = lit" by blast
    have "\<not> prefix w (lower (drop p s))" if p: "p < length mt" for p
    proof
      assume "prefix w (lower (drop p s))"
      with p have "prefix w (drop p lit @ lower r)"
        by (simp add: mt(1) mt(2) [symmetric])
      then have "prefix w (drop p lit) \<or> prefix (drop p lit) w"
        by (rule prefix_append_comparable)
      moreover from p mt(2) have "p < length lit" by auto
      ultimately show False using no_overlapD [OF A1] by blast
    qed
    with mt(1) show ?thesis by blast
  qed
  show "\<not> prefix w' (lower s)"
    if "m prev s \<noteq> None" "suffix w' w" "w' \<noteq> []" for prev s w'
  proof
    assume p: "prefix w' (lower s)"
    from that(1) obtain l r where "m prev s = Some (l, r)" by auto
    from lm [OF this] obtain mt where mt: "s = mt @ r" "lower mt = lit" by blast
    from p have "prefix w' (lit @ lower r)"
      by (simp add: mt(1) mt(2) [symmetric])
    then have "prefix w' lit \<or> prefix lit w'"
      by (rule prefix_append_comparable)
    with no_overlap_suffixD [OF A2 that(2,3)] show False by blast
  qed
  show "w \<noteq> []" by (rule w)
qed

lemma whitespace_keeps:
  assumes nw: "\<forall>c \<in> set w. \<not> is_space c" and w: "w \<noteq> []"
  shows "sublist w (lower s) \<Longrightarrow> sublist w (lower (re_sub match_ws rep prev s))"
proof (rule re_sub_keeps [where w = w])
  show "\<exists>mt. s = mt @ r \<and> (\<forall>p<length mt. \<not> prefix w (lower (drop p s)))"
    if "match_ws prev s = Some (l, r)" for prev s l r
  proof -
    from that plus_class_SomeD [of is_space prev s l r] obtain mt
      where mt: "s = mt @ r" "\<forall>c \<in> set mt. is_space c"
      by (auto simp: match_ws_def)
    have "\<not> prefix w (lower (drop p s))" if p: "p < length mt" for p
    proof
      assume a: "prefix w (lower (drop p s))"
      from p obtain x xs where x: "drop p mt = x # xs" by (cases "drop p mt") auto
      then have "x \<in> set mt" by (metis in_set_dropD list.set_intros(1))
      with mt(2) have sx: "is_space x" by blast
      from p x have "drop p s = x # xs @ r" by (simp add: mt(1))
      with a w have "hd w = lower_char x" by (cases w) auto
      with w nw sx show False by (metis hd_in_set is_space_lower_char)
    qed
    with mt(1) show ?thesis by blast
  qed
  show "\<not> prefix w' (lower s)"
    if "match_ws prev s \<noteq> None" "suffix w' w" "w' \<noteq> []" for prev s w'
  proof
    assume p: "prefix w' (lower s)"
    from that(1) obtain c cs where s: "s = c # cs" "is_space c"
      by (cases s) (auto simp: match_ws_def split: if_splits)
    from that(2,3) have "hd w' \<in> set w"
      by (metis hd_in_set set_mono_suffix subsetD)
    with nw have "\<not> is_space (hd w')" by blast
    moreover from p that(3) s(1) have "hd w' = lower_char c" by (cases w') auto
    ultimately show False using s(2) by simp
  qed
  show "w \<noteq> []" by (rule w)
qed

lemma dropWhile_space_keeps:
  assumes nw: "\<not> is_space (hd w)" and w: "w \<noteq> []"
  shows "sublist w (lower s) \<Longrightarrow> sublist w (lower (dropWhile is_space s))"
proof (induction s)
  case Nil
  then show ?case by simp
next
  case (Cons c cs)
  show ?case
  proof (cases "is_space c")
    case False
    with Cons.prems show ?thesis by simp
  next
    case True
    from Cons.prems have "prefix w (lower_char c # lower cs) \<or> sublist w (lower cs)"
      by (simp add: sublist_Cons_right)
    moreover have "\<not> prefix w (lower_char c # lower cs)"
    proof
      assume "prefix w (lower_char c # lower cs)"
      with w have "hd w = lower_char c" by (cases w) auto
      with nw True show False by simp
    qed
    ultimately have "sublist w (lower cs)" by blast
    with Cons.IH True show ?thesis by simp
  qed
qed

lemma strip_keeps:
  assumes nw: "\<forall>c \<in> set w. \<not> is_space c" and w: "w \<noteq> []"
  shows "sublist w (lower s) \<Longrightarrow> sublist w (lower (strip s))"
proof -
  assume a: "sublist w (lower s)"
  define t where "t = dropWhile is_space s"
  from nw w have h: "\<not> is_space (hd w)" by simp
  from a have "sublist w (lower t)"
    unfolding t_def by (rule dropWhile_space_keeps [OF h w])
  then have "sublist (rev w) (lower (rev t))" by simp
  moreover have "\<not> is_space (hd (rev w))"
    using nw w by (simp add: hd_rev)
  moreover have "rev w \<noteq> []" using w by simp
  ultimately have "sublist (rev w) (lower (dropWhile is_space (rev t)))"
    by (intro dropWhile_space_keeps)
  then have "sublist (rev (rev w)) (rev (lower (dropWhile is_space (rev t))))"
    by (simp only: sublist_rev)
  then show ?thesis by (simp add: strip_def t_def)
qed

lemma sublist_append_apart:
  assumes "t \<noteq> []" "hd t \<notin> set w" "sublist w (a @ t)"
  shows "sublist w a \<or> sublist w t"
proof -
  from assms(3) consider "sublist w a" | "sublist w t"
    | w1 w2 where "w = w1 @ w2" "suffix w1 a" "prefix w2 t"
    by (auto simp: sublist_append)
  then show ?thesis
  proof cases
    case 3
    show ?thesis
    proof (cases w2)
      case Nil
      with 3 have "suffix w a" by simp
      then show ?thesis by (auto simp: suffix_def)
    next
      case (Cons x xs)
      with 3(3) assms(1) have "hd t = x" by (cases t) auto
      with 3(1) Cons assms(2) show ?thesis by simp
    qed
  qed simp_all
qed

text \<open>What a substitution leaves at the end of the text.\<close>

lemma re_sub_no_match:
  assumes lm: "\<And>prev s l r. m prev s = Some (l, r) \<Longrightarrow> \<exists>mt. s = mt @ r \<and> lower mt = lit \<and> lit \<noteq> []"
  shows "\<not> sublist lit (lower u) \<Longrightarrow> re_sub m rep prev u = u"
proof (induction u arbitrary: prev)
  case Nil
  then show ?case by simp
next
  case (Cons c cs)
  have "m prev (c # cs) = None"
  proof (rule ccontr)
    assume "m prev (c # cs) \<noteq> None"
    then obtain l r where "m prev (c # cs) = Some (l, r)" by auto
    from lm [OF this] obtain mt where "c # cs = mt @ r" "lower mt = lit" by blast
    then have "lower (c # cs) = lit @ lower r" by (metis lower_simps(3))
    then have "sublist lit (lower (c # cs))" by (metis sublist_append_rightI)
    with Cons.prems show False by blast
  qed
  moreover from Cons.prems have "\<not> sublist lit (lower cs)"
    by (simp add: sublist_Cons_right)
  ultimately show ?case using Cons.IH by simp
qed

lemma re_sub_suffix:
  assumes lm: "\<And>prev s l r. m prev s = Some (l, r) \<Longrightarrow> \<exists>mt. s = mt @ r \<and> lower mt = lit \<and> lit \<noteq> []"
    and t: "t \<noteq> []" and sep: "lower_char (hd t) \<notin> set lit" and nt: "\<not> sublist lit (lower t)"
  shows "\<exists>b. re_sub m rep prev (a @ t) = b @ t"
proof (induction a arbitrary: prev rule: length_induct)
  case (1 a)
  have IH: "\<exists>b. re_sub m rep pv (ys @ t) = b @ t" if "length ys < length a" for ys pv
    using "1.IH" that by blast
  show ?case
  proof (cases a)
    case Nil
    from re_sub_no_match [OF lm nt, where rep = rep and prev = prev] have "re_sub m rep prev ([] @ t) = [] @ t"
      by simp
    with Nil show ?thesis by blast
  next
    case (Cons x a')
    from IH [of a' "Some x"] Cons obtain b where b: "re_sub m rep (Some x) (a' @ t) = b @ t"
      by auto
    then have skip: "x # re_sub m rep (Some x) (a' @ t) = (x # b) @ t" by simp
    show ?thesis
    proof (cases "m prev (x # a' @ t)")
      case None
      with skip have "re_sub m rep prev (a @ t) = (x # b) @ t" by (simp add: Cons)
      then show ?thesis by blast
    next
      case (Some lr)
      obtain l r where lr: "lr = (l, r)" by (cases lr)
      show ?thesis
      proof (cases "length r \<le> length (a' @ t)")
        case False
        with Some lr skip have "re_sub m rep prev (a @ t) = (x # b) @ t" by (simp add: Cons)
        then show ?thesis by blast
      next
        case True
        from lm Some lr obtain mt
          where mt: "x # a' @ t = mt @ r" "lower mt = lit" "lit \<noteq> []" by blast
        have "length mt \<le> length a"
        proof (rule ccontr)
          assume "\<not> length mt \<le> length a"
          then have long: "length a < length mt" by simp
          from mt(1) have "a @ t = mt @ r" by (simp add: Cons)
          then have "mt ! length a = (a @ t) ! length a"
            using long by (metis nth_append)
          also have "\<dots> = hd t" using t by (simp add: nth_append hd_conv_nth)
          finally have "hd t \<in> set mt" using long by (metis nth_mem)
          then have "lower_char (hd t) \<in> set (lower mt)" by (simp add: lower_def)
          with sep mt(2) show False by simp
        qed
        moreover from mt(1) have e: "a @ t = mt @ r" by (simp add: Cons)
        ultimately have "r = drop (length mt) a @ t"
          by (metis append_eq_conv_conj drop_append diff_is_0_eq' drop0)
        moreover have "length (drop (length mt) a) < length a"
          using mt(2,3) Cons by (cases mt) auto
        ultimately obtain b' where "re_sub m rep l r = b' @ t"
          using IH [of "drop (length mt) a" l] by auto
        with Some lr True have "re_sub m rep prev (a @ t) = (rep @ b') @ t"
          by (simp add: Cons)
        then show ?thesis by blast
      qed
    qed
  qed
qed

lemma ws_normal_tl: "ws_normal (c # cs) \<Longrightarrow> ws_normal cs"
  by (cases cs) simp_all

lemma ws_normal_space:
  assumes "ws_normal (c # cs)" "is_space c"
  shows "c = CHR '' ''" "dropWhile is_space cs = cs"
  using assms by (cases cs; simp)+

lemma match_ws_Cons:
  "match_ws prev (c # cs) =
     (if is_space c then Some (fst (skip_class is_space (Some c) cs), dropWhile is_space cs) else None)"
  using skip_class_snd [of is_space "Some c" cs]
  by (cases "skip_class is_space (Some c) cs") (simp add: match_ws_def)

lemma re_sub_ws_normal: "ws_normal u \<Longrightarrow> re_sub match_ws '' '' prev u = u"
proof (induction u arbitrary: prev)
  case Nil
  then show ?case by simp
next
  case (Cons c cs)
  from Cons.prems have n: "ws_normal cs" by (rule ws_normal_tl)
  show ?case
  proof (cases "is_space c")
    case False
    with Cons.IH [OF n] show ?thesis by (simp add: match_ws_Cons)
  next
    case True
    from ws_normal_space [OF Cons.prems True] Cons.IH [OF n] True
    show ?thesis by (simp add: match_ws_Cons)
  qed
qed

lemma re_sub_ws_suffix:
  assumes t: "t = CHR '' '' # t'" and t': "t' \<noteq> []" "\<not> is_space (hd t')" "ws_normal t'"
  shows "\<exists>b. re_sub match_ws '' '' prev (a @ t) = b @ t"
proof (induction a arbitrary: prev rule: length_induct)
  case (1 a)
  have IH: "\<exists>b. re_sub match_ws '' '' pv (ys @ t) = b @ t" if "length ys < length a" for ys pv
    using "1.IH" that by blast
  have dt: "dropWhile is_space t = t'"
    using t t'(1,2) by (cases t') simp_all
  have tail: "re_sub match_ws '' '' pv t' = t'" for pv
    by (rule re_sub_ws_normal [OF t'(3)])
  show ?case
  proof (cases a)
    case Nil
    have "re_sub match_ws '' '' prev t = '' '' @ t'"
      using dt by (simp add: t match_ws_Cons tail)
    with Nil t show ?thesis by simp
  next
    case (Cons x a')
    show ?thesis
    proof (cases "is_space x")
      case False
      from IH [of a' "Some x"] Cons obtain b where "re_sub match_ws '' '' (Some x) (a' @ t) = b @ t"
        by auto
      with False have "re_sub match_ws '' '' prev (a @ t) = (x # b) @ t"
        by (simp add: Cons match_ws_Cons)
      then show ?thesis by blast
    next
      case True
      define l where "l = fst (skip_class is_space (Some x) (a' @ t))"
      have step: "re_sub match_ws '' '' prev (a @ t)
                    = '' '' @ re_sub match_ws '' '' l (dropWhile is_space (a' @ t))"
        using True length_dropWhile_le [of is_space "a' @ t"]
        by (simp add: Cons match_ws_Cons l_def)
      show ?thesis
      proof (cases "\<forall>c \<in> set a'. is_space c")
        case True
        then have "dropWhile is_space (a' @ t) = t'"
          by (simp add: dropWhile_append2 dt)
        with step tail have "re_sub match_ws '' '' prev (a @ t) = [] @ t"
          by (simp add: t)
        then show ?thesis by blast
      next
        case False
        then have d: "dropWhile is_space (a' @ t) = dropWhile is_space a' @ t"
          by (auto simp: dropWhile_append1)
        have "length (dropWhile is_space a') < length a"
          using length_dropWhile_le [of is_space a'] by (simp add: Cons)
        from IH [OF this, of l] obtain b
          where "re_sub match_ws '' '' l (dropWhile is_space a' @ t) = b @ t" by blast
        with step d have "re_sub match_ws '' '' prev (a @ t) = ('' '' @ b) @ t" by simp
        then show ?thesis by blast
      qed
    qed
  qed
qed

lemma strip_id:
  assumes "s \<noteq> []" "\<not> is_space (hd s)" "\<not> is_space (last s)"
  shows "strip s = s"
proof -
  from assms(1,2) have "dropWhile is_space s = s" by (cases s) simp_all
  moreover from assms(1,3) have "dropWhile is_space (rev s) = rev s"
    by (cases "rev s") (simp_all add: last_rev [symmetric] del: last_rev)
  ultimately show ?thesis by (simp add: strip_def)
qed

text \<open>The first character of an accepted statement is an \<open>s\<close>, and no pattern starts there.\<close>

lemma match_lit_first:
  assumes "lower_char c \<noteq> hd lit"
  shows "match_lit True lit prev (c # cs) = None"
proof (rule ccontr)
  assume "match_lit True lit prev (c # cs) \<noteq> None"
  then obtain l r where "match_lit True lit prev (c # cs) = Some (l, r)" by auto
  from match_lit_SomeD [OF this] obtain mt where mt: "c # cs = mt @ r" "lower mt = lit" "lit \<noteq> []"
    by blast
  then obtain m' where "mt = c # m'" by (cases mt) auto
  with mt(2) have "hd lit = lower_char c" by auto
  with assms show False by simp
qed

lemma match_word_first:
  assumes "lower_char c \<noteq> hd lit"
  shows "match_word True lit prev (c # cs) = None"
  using match_lit_first [OF assms] by (simp add: match_word_def bounded_def)

lemma match_limit_first:
  assumes "lower_char c \<noteq> CHR ''l''"
  shows "match_limit True prev (c # cs) = None"
  using assms by (simp add: match_limit_def)

lemma re_sub_first: "m prev (c # cs) = None \<Longrightarrow> re_sub m rep prev (c # cs) = c # re_sub m rep (Some c) cs"
  by simp

end
